theory Spec2Isabelle
  imports Main "HOL-Library.Word"
begin

section \<open>Host types\<close>

text \<open>
  Unlog is a header-only logging facade over a host engine. The host's strings
  (\<open>FString\<close>, \<open>FName\<close>, \<open>TCHAR*\<close>, \<open>char*\<close>) are modelled as HOL strings; the
  conversion between the narrow and the wide encoding is the identity here.
\<close>

type_synonym FString = string
type_synonym FName = string
type_synonym FColor = string

text \<open>
  Modelled from the spec: the enumeration \<open>ELogVerbosity::Type\<close> is declared by the host
  engine and is not part of the repository. The spec (4.2) describes it as an ordered
  enumeration with at least none, error, warning, log/info, verbose and very-verbose,
  ordered from most to least severe. The constructors are the members the source names
  (\<open>NoLogging\<close>, \<open>Error\<close>, \<open>Warning\<close>, \<open>Display\<close>, \<open>Log\<close>, \<open>Verbose\<close>, \<open>VeryVerbose\<close>)
  and the host's \<open>Fatal\<close>; \<open>verbosity_value\<close> is the enumerator's integer value,
  which is what the source's \<open>\<le>\<close> compares.
\<close>

datatype ELogVerbosity =
  NoLogging | Fatal | Error | Warning | Display | Log | Verbose | VeryVerbose

fun verbosity_value :: "ELogVerbosity \<Rightarrow> nat" where
  "verbosity_value NoLogging = 0"
| "verbosity_value Fatal = 1"
| "verbosity_value Error = 2"
| "verbosity_value Warning = 3"
| "verbosity_value Display = 4"
| "verbosity_value Log = 5"
| "verbosity_value Verbose = 6"
| "verbosity_value VeryVerbose = 7"

text \<open>The host's message severities, as far as \<open>Target::MessageLog\<close> uses them.\<close>

datatype EMessageSeverity = SeverityError | SeverityWarning | SeverityInfo

text \<open>
  The values a numbered format accepts (\<open>FStringFormatArg\<close>): signed and unsigned
  integers and strings. The host's floating-point alternative is left out.
\<close>

datatype FStringFormatArg = ArgInt int | ArgUInt nat | ArgString FString

text \<open>
  The two renderers of the host, \<open>FString::Format\<close> with ordered arguments and
  \<open>FString::Printf\<close>, are parameters of the model.
\<close>

record host =
  FString_Format :: "FString \<Rightarrow> FStringFormatArg list \<Rightarrow> FString"
  FString_Printf :: "FString \<Rightarrow> FStringFormatArg list \<Rightarrow> FString"

section \<open>Categories\<close>

text \<open>\<open>class UnlogCategoryBase\<close>: a name and a verbosity threshold, with two getters.\<close>

record UnlogCategoryBase =
  CategoryName :: FName
  Verbosity :: ELogVerbosity

definition GetName :: "UnlogCategoryBase \<Rightarrow> FName" where
  "GetName c = CategoryName c"

definition GetVerbosity :: "UnlogCategoryBase \<Rightarrow> ELogVerbosity" where
  "GetVerbosity c = Verbosity c"

text \<open>
  A category is a class derived from \<open>UnlogCategoryCRTP\<close>. \<open>UNLOG_CATEGORY n\<close> is the
  class the macro of that name generates for the identifier \<open>n\<close>; \<open>UserCategory n c\<close>
  is a class \<open>n\<close> written by hand whose \<open>Construct\<close> returns the object \<open>c\<close>.
\<close>

datatype TCategory = UNLOG_CATEGORY string | UserCategory string UnlogCategoryBase

fun Construct :: "TCategory \<Rightarrow> UnlogCategoryBase" where
  "Construct (UNLOG_CATEGORY n) = \<lparr>CategoryName = n, Verbosity = Log\<rparr>"
| "Construct (UserCategory n c) = c"

text \<open>
  \<open>UnlogCategoryCRTP::Static\<close> returns the function-local static of the class,
  initialised by \<open>Construct\<close> on first use. The object has no mutator, so every read
  of it sees the value \<open>Construct\<close> returned. A pointer to that static
  (\<open>UnlogCategoryBase*\<close>) is modelled as the class itself, \<open>nullptr\<close> as \<open>None\<close>.
\<close>

definition Static :: "TCategory \<Rightarrow> UnlogCategoryBase" where
  "Static T = Construct T"

definition LogGeneral :: TCategory where
  "LogGeneral = UNLOG_CATEGORY ''LogGeneral''"

section \<open>Effects and failures\<close>

text \<open>
  What a call does is recorded as a trace of events: the stages of the logger core
  that were entered, and the calls made to the host's sinks.
\<close>

datatype event =
    EvCondition
  | EvFilter UnlogCategoryBase ELogVerbosity
  | EvFormat bool FString "FStringFormatArg list"
  | EvLogf FName ELogVerbosity FString
  | EvGetLogListing FName
  | EvSetLabel FName FString
  | EvAddMessage FName EMessageSeverity FString
  | EvOpenMessageLog FName
  | EvOnScreenDebugMessage int int FColor FString
  | EvUserTarget string UnlogCategoryBase ELogVerbosity FString
  | EvProcessLog string FName ELogVerbosity FString

fun is_format :: "event \<Rightarrow> bool" where
  "is_format (EvFormat p f a) = True"
| "is_format e = False"

fun is_dispatch :: "event \<Rightarrow> bool" where
  "is_dispatch EvCondition = False"
| "is_dispatch (EvFilter c v) = False"
| "is_dispatch (EvFormat p f a) = False"
| "is_dispatch e = True"

text \<open>
  Modelled from the spec: the host's \<open>check\<close> macro is not part of the repository. The
  spec (7) calls a failed contract a fatal invariant violation; a failed \<open>check\<close> ends
  the run with the failure below.
\<close>

datatype failure = CheckFailed string

section \<open>Runtime settings\<close>

datatype settings_op = AddTarget string | SetDefaultCategory TCategory

text \<open>
  A settings class derives from \<open>RuntimeSettingsCRTP\<close> and supplies
  \<open>PopulateSettings\<close>, here the list of calls it makes. A runtime target is named by
  its class.
\<close>

datatype TSettings = UnlogDefaultRuntimeSettings | UserSettings string "settings_op list"

record UnlogRuntimeSettingsBase =
  Targets :: "string list"
  DefaultCategory :: "TCategory option"

fun apply_settings_op :: "settings_op \<Rightarrow> UnlogRuntimeSettingsBase \<Rightarrow> UnlogRuntimeSettingsBase" where
  "apply_settings_op (AddTarget t) s = s\<lparr>Targets := Targets s @ [t]\<rparr>"
| "apply_settings_op (SetDefaultCategory c) s = s\<lparr>DefaultCategory := Some c\<rparr>"

fun PopulateSettings :: "TSettings \<Rightarrow> UnlogRuntimeSettingsBase \<Rightarrow> UnlogRuntimeSettingsBase" where
  "PopulateSettings UnlogDefaultRuntimeSettings s = apply_settings_op (SetDefaultCategory LogGeneral) s"
| "PopulateSettings (UserSettings n ops) s = fold apply_settings_op ops s"

definition MakeSettings :: "TSettings \<Rightarrow> UnlogRuntimeSettingsBase" where
  "MakeSettings T = PopulateSettings T \<lparr>Targets = [], DefaultCategory = None\<rparr>"

definition GetTargets :: "UnlogRuntimeSettingsBase \<Rightarrow> string list" where
  "GetTargets s = Targets s"

definition GetDefaultCategory :: "UnlogRuntimeSettingsBase \<Rightarrow> UnlogCategoryBase" where
  "GetDefaultCategory s =
     (case DefaultCategory s of Some c \<Rightarrow> Static c | None \<Rightarrow> Static LogGeneral)"

section \<open>Contexts\<close>

text \<open>\<open>class UnlogContextBase\<close>: a name and a \<open>uint32\<close> counter.\<close>

record UnlogContextBase =
  ContextName :: FName
  Counter :: "32 word"

section \<open>The process state\<close>

text \<open>
  \<open>Settings\<close> and \<open>PushedCategories\<close> are the two fields of the \<open>Unlogger\<close>
  singleton (the last element of the array is its top). \<open>SettingsStatics\<close> and
  \<open>ContextStatics\<close> hold the function-local statics constructed so far, by class.
\<close>

record world =
  Settings :: TSettings
  PushedCategories :: "TCategory list"
  SettingsStatics :: "TSettings \<rightharpoonup> UnlogRuntimeSettingsBase"
  ContextStatics :: "string \<rightharpoonup> UnlogContextBase"
  trace :: "event list"

definition emit :: "event \<Rightarrow> world \<Rightarrow> world" where
  "emit e w = w\<lparr>trace := trace w @ [e]\<rparr>"

section \<open>Category pickers\<close>

text \<open>
  The three classes with a static \<open>PickCategory\<close>: \<open>TSpecificCategory\<close>,
  \<open>TDeriveCategory\<close>, and a category class itself (\<open>UnlogCategoryCRTP\<close>). Each
  works on the pointer it is given by reference; the model returns the pointer's new
  value. (The first two are declared with a pointer as result and return nothing.)
\<close>

datatype picker = TSpecificCategory TCategory | TDeriveCategory TCategory | CategoryCRTP TCategory

fun PickCategory :: "picker \<Rightarrow> TCategory option \<Rightarrow> TCategory option" where
  "PickCategory (TSpecificCategory T) InOutCategory = Some T"
| "PickCategory (TDeriveCategory T) InOutCategory =
     (if InOutCategory = None then Some T else InOutCategory)"
| "PickCategory (CategoryCRTP T) InOutCategory = Some T"

definition Unlogger_PickCategory :: "picker \<Rightarrow> world \<Rightarrow> failure + UnlogCategoryBase" where
  "Unlogger_PickCategory P w =
     (let SelectedCategory =
            (if length (PushedCategories w) > 0 then Some (last (PushedCategories w)) else None)
      in case PickCategory P SelectedCategory of
           None \<Rightarrow> Inl (CheckFailed ''SelectedCategory'')
         | Some T \<Rightarrow> Inr (Static T))"

section \<open>Targets\<close>

text \<open>
  The targets of the namespace \<open>Target\<close>, and \<open>UserTarget n\<close> for a target struct
  \<open>n\<close> the user writes: an opaque sink, whose \<open>Call\<close> is recorded with its
  arguments. The built-in targets are recorded by the calls they make to the host.
\<close>

datatype Target =
    UELog
  | MessageLog
  | TGameScreen int FColor
  | UserTarget string
  | TMultiTarget "Target list"

fun VerbosityToSeverity :: "ELogVerbosity \<Rightarrow> EMessageSeverity" where
  "VerbosityToSeverity Error = SeverityError"
| "VerbosityToSeverity Warning = SeverityWarning"
| "VerbosityToSeverity v = SeverityInfo"

definition GetLogListing :: "FName \<Rightarrow> world \<Rightarrow> world" where
  "GetLogListing n w = emit (EvSetLabel n n) (emit (EvGetLogListing n) w)"

definition INDEX_NONE :: int where
  "INDEX_NONE = - 1"

text \<open>
  \<open>Call\<close> of each target. \<open>TMultiTarget\<close> expands its pack inside a braced
  initialiser list, whose elements are evaluated from left to right.
\<close>

fun Target_Call :: "Target \<Rightarrow> UnlogCategoryBase \<Rightarrow> ELogVerbosity \<Rightarrow> FString \<Rightarrow> world \<Rightarrow> world" where
  "Target_Call UELog c v m w = emit (EvLogf (GetName c) v m) w"
| "Target_Call MessageLog c v m w =
     (let w1 = GetLogListing (GetName c) w;
          w2 = emit (EvAddMessage (GetName c) (VerbosityToSeverity v) m) w1
      in if v = Error then emit (EvOpenMessageLog (GetName c)) w2 else w2)"
| "Target_Call (TGameScreen TimeOnScreen InColor) c v m w =
     emit (EvOnScreenDebugMessage INDEX_NONE TimeOnScreen InColor m) w"
| "Target_Call (UserTarget n) c v m w = emit (EvUserTarget n c v m) w"
| "Target_Call (TMultiTarget ts) c v m w = fold (\<lambda>t. Target_Call t c v m) ts w"

text \<open>The two aliases of the namespace: \<open>Target::GameScreen\<close> and \<open>Target::Default\<close>.\<close>

definition GameScreen :: Target where
  "GameScreen = TGameScreen 3 ''Cyan''"

definition Target_Default :: Target where
  "Target_Default = UELog"

section \<open>The logger core\<close>

datatype TFormatOptions = TFormatOptions (IsPrintfFormat: bool)

datatype TStaticConfiguration =
  TStaticConfiguration (FormatOptions: TFormatOptions) (CategoryPicker: picker) (TargetOptions: Target)

text \<open>
  \<open>ResolveString\<close> has an overload for each encoding; both are the identity on the
  model's strings. \<open>ProcessFormatString\<close> has one overload for each value of
  \<open>IsPrintfFormat\<close>; their static assertions on the argument types have no
  counterpart here.
\<close>

definition ResolveString :: "FString \<Rightarrow> FString" where
  "ResolveString Format = Format"

definition ProcessFormatString :: "host \<Rightarrow> TFormatOptions \<Rightarrow> FString \<Rightarrow> FStringFormatArg list \<Rightarrow> FString" where
  "ProcessFormatString h fo Format Args =
     (if \<not> IsPrintfFormat fo then FString_Format h (ResolveString Format) Args
      else FString_Printf h Format Args)"

text \<open>
  \<open>UnlogPrivateImpl\<close>. The events \<open>EvFilter\<close> and \<open>EvFormat\<close> are instrumentation:
  they record that the verbosity test was evaluated and that \<open>ProcessFormatString\<close>
  was called. Everything else follows the source: the category is picked, the test
  guards the rendering, and the rendered string goes to \<open>Call\<close> of the configured
  target.
\<close>

definition UnlogPrivateImpl ::
  "host \<Rightarrow> TStaticConfiguration \<Rightarrow> FString \<Rightarrow> ELogVerbosity \<Rightarrow> FStringFormatArg list \<Rightarrow> world \<Rightarrow> failure + world" where
  "UnlogPrivateImpl h cfg Format v Args w =
     (case Unlogger_PickCategory (CategoryPicker cfg) w of
        Inl e \<Rightarrow> Inl e
      | Inr Category \<Rightarrow>
          (let w1 = emit (EvFilter Category v) w in
           if verbosity_value v \<le> verbosity_value (GetVerbosity Category) \<and> v \<noteq> NoLogging
           then
             (let w2 = emit (EvFormat (IsPrintfFormat (FormatOptions cfg)) Format Args) w1;
                  Result = ProcessFormatString h (FormatOptions cfg) Format Args
              in Inr (Target_Call (TargetOptions cfg) Category v Result w2))
           else Inr w1))"

text \<open>
  \<open>Unlogger::CreateLogger\<close>: the singleton starts with the default settings installed
  and no pushed category. (The telemetry request it also sends is not modelled.)
\<close>

definition CreateLogger :: world where
  "CreateLogger =
     \<lparr>Settings = UnlogDefaultRuntimeSettings,
      PushedCategories = [],
      SettingsStatics = [UnlogDefaultRuntimeSettings \<mapsto> MakeSettings UnlogDefaultRuntimeSettings],
      ContextStatics = Map.empty,
      trace = []\<rparr>"

text \<open>What a target sends to the host's sinks for one emission, in order.\<close>

definition sink_calls :: "Target \<Rightarrow> UnlogCategoryBase \<Rightarrow> ELogVerbosity \<Rightarrow> FString \<Rightarrow> event list" where
  "sink_calls t c v m = trace (Target_Call t c v m CreateLogger)"

section \<open>The generated logging functions\<close>

text \<open>
  A condition callable (\<open>TFunction<bool()>\<close>) may act on the process state and
  returns a boolean. \<open>probe b\<close> is the instrumented callable that leaves a mark in the
  trace each time it is invoked and returns \<open>b\<close>.
\<close>

type_synonym TFunction_bool = "world \<Rightarrow> bool \<times> world"

definition probe :: "bool \<Rightarrow> TFunction_bool" where
  "probe b w = (b, emit EvCondition w)"

text \<open>
  \<open>UNLOG_DECLARE_CATEGORY_LOG_FUNCTION_CONDITIONALS\<close> generates three overloads of
  \<open>FunctionName\<close> when \<open>UNLOG_ENABLED\<close> holds, and one function with an empty body
  otherwise. The first argument of the model is \<open>UNLOG_ENABLED\<close>. The template
  parameter \<open>TCategory\<close> of the overloads is not used by their bodies: the configuration
  is built from the macro's argument \<open>CategoryPicker\<close> (\<open>InCategoryPicker\<close> here).
\<close>

definition FunctionName ::
  "bool \<Rightarrow> host \<Rightarrow> picker \<Rightarrow> Target \<Rightarrow> ELogVerbosity \<Rightarrow> bool \<Rightarrow> picker \<Rightarrow>
   FString \<Rightarrow> FStringFormatArg list \<Rightarrow> world \<Rightarrow> failure + world" where
  "FunctionName UNLOG_ENABLED h InCategoryPicker InTargetOptions VerbosityName IsPrintf TCategory Format Args w =
     (if UNLOG_ENABLED
      then UnlogPrivateImpl h
             (TStaticConfiguration (TFormatOptions IsPrintf) InCategoryPicker InTargetOptions)
             Format VerbosityName Args w
      else Inr w)"

definition FunctionName_Condition ::
  "bool \<Rightarrow> host \<Rightarrow> picker \<Rightarrow> Target \<Rightarrow> ELogVerbosity \<Rightarrow> bool \<Rightarrow> picker \<Rightarrow>
   bool \<Rightarrow> FString \<Rightarrow> FStringFormatArg list \<Rightarrow> world \<Rightarrow> failure + world" where
  "FunctionName_Condition UNLOG_ENABLED h InCategoryPicker InTargetOptions VerbosityName IsPrintf TCategory
       Condition Format Args w =
     (if UNLOG_ENABLED
      then (if Condition
            then UnlogPrivateImpl h
                   (TStaticConfiguration (TFormatOptions IsPrintf) InCategoryPicker InTargetOptions)
                   Format VerbosityName Args w
            else Inr w)
      else Inr w)"

definition FunctionName_LambdaCondition ::
  "bool \<Rightarrow> host \<Rightarrow> picker \<Rightarrow> Target \<Rightarrow> ELogVerbosity \<Rightarrow> bool \<Rightarrow> picker \<Rightarrow>
   TFunction_bool \<Rightarrow> FString \<Rightarrow> FStringFormatArg list \<Rightarrow> world \<Rightarrow> failure + world" where
  "FunctionName_LambdaCondition UNLOG_ENABLED h InCategoryPicker InTargetOptions VerbosityName IsPrintf TCategory
       LambdaCondition Format Args w =
     (if UNLOG_ENABLED
      then (case LambdaCondition w of
              (Condition, w1) \<Rightarrow>
                FunctionName_Condition UNLOG_ENABLED h InCategoryPicker InTargetOptions VerbosityName
                  IsPrintf InCategoryPicker Condition Format Args w1)
      else Inr w)"

section \<open>Logger flavors\<close>

text \<open>\<open>TUnlog\<close> and its four builders.\<close>

datatype TUnlog = TUnlog (Unlog_TargetOptions: Target) (Unlog_CategoryPicker: picker)

text \<open>\<open>TUnlog<>\<close>, the flavor with the default template arguments.\<close>

definition Unlog_default :: TUnlog where
  "Unlog_default = TUnlog Target_Default (TDeriveCategory LogGeneral)"

definition WithTargets :: "TUnlog \<Rightarrow> Target list \<Rightarrow> TUnlog" where
  "WithTargets U ts = TUnlog (TMultiTarget ts) (Unlog_CategoryPicker U)"

definition AddTarget_flavor :: "TUnlog \<Rightarrow> Target list \<Rightarrow> TUnlog" where
  "AddTarget_flavor U ts =
     TUnlog (TMultiTarget (Unlog_TargetOptions U # ts)) (Unlog_CategoryPicker U)"

definition WithDefaultCategory :: "TUnlog \<Rightarrow> TCategory \<Rightarrow> TUnlog" where
  "WithDefaultCategory U InCategory = TUnlog (Unlog_TargetOptions U) (TDeriveCategory InCategory)"

definition WithCategory :: "TUnlog \<Rightarrow> TCategory \<Rightarrow> TUnlog" where
  "WithCategory U InCategory = TUnlog (Unlog_TargetOptions U) (TSpecificCategory InCategory)"

text \<open>
  The members \<open>Log\<close>, \<open>Warn\<close>, \<open>Error\<close>, \<open>Display\<close>, \<open>Verbose\<close>, \<open>VeryVerbose\<close> of a
  flavor (and their printf twins with the suffix \<open>f\<close>) are \<open>FunctionName\<close> at the
  verbosity of that name, with the flavor's picker and targets.
\<close>

definition Unlog_call ::
  "bool \<Rightarrow> host \<Rightarrow> TUnlog \<Rightarrow> ELogVerbosity \<Rightarrow> bool \<Rightarrow> FString \<Rightarrow> FStringFormatArg list \<Rightarrow>
   world \<Rightarrow> failure + world" where
  "Unlog_call UNLOG_ENABLED h U VerbosityName IsPrintf Format Args w =
     FunctionName UNLOG_ENABLED h (Unlog_CategoryPicker U) (Unlog_TargetOptions U) VerbosityName
       IsPrintf (Unlog_CategoryPicker U) Format Args w"

section \<open>The macros\<close>

text \<open>
  \<open>TMacroArgs\<close> has three specialisations: for a logger flavor, for a category, and
  for no argument. \<open>GetSettings\<close> yields the flavor the macro logs through.
\<close>

datatype TMacroArgs = MacroArgs_TUnlog Target picker | MacroArgs_TCategory TCategory | MacroArgs_none

fun GetSettings :: "TMacroArgs \<Rightarrow> TUnlog \<Rightarrow> TUnlog" where
  "GetSettings (MacroArgs_TUnlog InTargetOptions InCategoryPicker) TSourceSettings =
     TUnlog InTargetOptions InCategoryPicker"
| "GetSettings (MacroArgs_TCategory T) TSourceSettings =
     TUnlog (Unlog_TargetOptions TSourceSettings) (TSpecificCategory T)"
| "GetSettings MacroArgs_none TSourceSettings = TSourceSettings"

definition UnlogMacroExpand ::
  "host \<Rightarrow> TUnlog \<Rightarrow> bool \<Rightarrow> ELogVerbosity \<Rightarrow> FString \<Rightarrow> FStringFormatArg list \<Rightarrow>
   world \<Rightarrow> failure + world" where
  "UnlogMacroExpand h UnlogOptions IsPrintf InVerbosity Format Args w =
     UnlogPrivateImpl h
       (TStaticConfiguration (TFormatOptions IsPrintf)
          (Unlog_CategoryPicker UnlogOptions) (Unlog_TargetOptions UnlogOptions))
       Format InVerbosity Args w"

text \<open>
  \<open>UNLOG\<close> and \<open>UNLOGF\<close> (the flag \<open>IsPrintf\<close> tells them apart), and \<open>UNCLOG\<close> and
  \<open>UNCLOGF\<close>, whose condition is an expression of the caller. \<open>Unlog\<close> is the flavor
  of that name at the place of the call.
\<close>

definition UNLOG ::
  "bool \<Rightarrow> host \<Rightarrow> TUnlog \<Rightarrow> bool \<Rightarrow> TMacroArgs \<Rightarrow> ELogVerbosity \<Rightarrow> FString \<Rightarrow>
   FStringFormatArg list \<Rightarrow> world \<Rightarrow> failure + world" where
  "UNLOG UNLOG_ENABLED h Unlog IsPrintf InMacroArgs VerbosityName Message Args w =
     (if UNLOG_ENABLED
      then UnlogMacroExpand h (GetSettings InMacroArgs Unlog) IsPrintf VerbosityName Message Args w
      else Inr w)"

definition UNCLOG ::
  "bool \<Rightarrow> host \<Rightarrow> TUnlog \<Rightarrow> bool \<Rightarrow> TFunction_bool \<Rightarrow> TMacroArgs \<Rightarrow> ELogVerbosity \<Rightarrow> FString \<Rightarrow>
   FStringFormatArg list \<Rightarrow> world \<Rightarrow> failure + world" where
  "UNCLOG UNLOG_ENABLED h Unlog IsPrintf Condition InMacroArgs VerbosityName Message Args w =
     (if UNLOG_ENABLED
      then (case Condition w of
              (b, w1) \<Rightarrow>
                if b
                then UnlogMacroExpand h (GetSettings InMacroArgs Unlog) IsPrintf VerbosityName
                       Message Args w1
                else Inr w1)
      else Inr w)"

section \<open>Installing settings\<close>

text \<open>
  \<open>RuntimeSettingsCRTP::Static\<close>: the function-local static of a settings class, made
  by \<open>MakeSettings\<close> on first use.
\<close>

definition Settings_Static :: "TSettings \<Rightarrow> world \<Rightarrow> UnlogRuntimeSettingsBase \<times> world" where
  "Settings_Static T w =
     (case SettingsStatics w T of
        Some s \<Rightarrow> (s, w)
      | None \<Rightarrow> (MakeSettings T, w\<lparr>SettingsStatics := (SettingsStatics w)(T \<mapsto> MakeSettings T)\<rparr>))"

definition ApplyRuntimeSettingsInternal :: "TSettings \<Rightarrow> world \<Rightarrow> world" where
  "ApplyRuntimeSettingsInternal T w =
     (case Settings_Static T w of (s, w1) \<Rightarrow> w1\<lparr>Settings := T\<rparr>)"

definition ApplyRuntimeSettings :: "TSettings \<Rightarrow> world \<Rightarrow> world" where
  "ApplyRuntimeSettings T w = ApplyRuntimeSettingsInternal T w"

text \<open>The settings object the logger's pointer refers to.\<close>

definition active_settings :: "world \<Rightarrow> UnlogRuntimeSettingsBase option" where
  "active_settings w = SettingsStatics w (Settings w)"

section \<open>Scoped categories\<close>

definition PushCategory :: "TCategory \<Rightarrow> world \<Rightarrow> world" where
  "PushCategory T w = w\<lparr>PushedCategories := PushedCategories w @ [T]\<rparr>"

definition PopCategory :: "world \<Rightarrow> failure + world" where
  "PopCategory w =
     (if length (PushedCategories w) > 0
      then Inr (w\<lparr>PushedCategories := butlast (PushedCategories w)\<rparr>)
      else Inl (CheckFailed ''PushedCategories.Num() > 0''))"

text \<open>The constructor and the destructor of \<open>FUnlogScopedCategory\<close>.\<close>

definition FUnlogScopedCategory_ctor :: "TCategory \<Rightarrow> world \<Rightarrow> world" where
  "FUnlogScopedCategory_ctor T w = PushCategory T w"

definition FUnlogScopedCategory_dtor :: "world \<Rightarrow> failure + world" where
  "FUnlogScopedCategory_dtor w = PopCategory w"

text \<open>
  Programs with lexical scopes: a log call through a flavor, the installation of
  settings, and a block that opens with \<open>UNLOG_CATEGORY_PUSH\<close>. The guard of a block is
  constructed once on entry (the macro initialises the guard from a temporary, and
  the copy is elided) and destroyed when the block is left. Logging is enabled in
  these programs.
\<close>

datatype stmt =
    LogCall TUnlog ELogVerbosity bool FString "FStringFormatArg list"
  | MacroCall TUnlog TMacroArgs ELogVerbosity bool FString "FStringFormatArg list"
  | InstallSettings TSettings
  | CategoryScope TCategory "stmt list"

fun exec :: "host \<Rightarrow> stmt \<Rightarrow> world \<Rightarrow> failure + world"
  and exec_block :: "host \<Rightarrow> stmt list \<Rightarrow> world \<Rightarrow> failure + world" where
  "exec h (LogCall U v p f a) w = Unlog_call True h U v p f a w"
| "exec h (MacroCall U ma v p f a) w = UNLOG True h U p ma v f a w"
| "exec h (InstallSettings T) w = Inr (ApplyRuntimeSettings T w)"
| "exec h (CategoryScope T body) w =
     (case exec_block h body (FUnlogScopedCategory_ctor T w) of
        Inl e \<Rightarrow> Inl e
      | Inr w1 \<Rightarrow> FUnlogScopedCategory_dtor w1)"
| "exec_block h [] w = Inr w"
| "exec_block h (s # ss) w =
     (case exec h s w of Inl e \<Rightarrow> Inl e | Inr w1 \<Rightarrow> exec_block h ss w1)"

section \<open>Context flags\<close>

text \<open>
  \<open>UNLOG_CONTEXT\<close> generates a class whose \<open>Construct\<close> passes the class's name to
  the constructor of \<open>UnlogContextBase\<close>, which starts the counter at zero. A context
  class is named by its identifier.
\<close>

definition Context_Construct :: "string \<Rightarrow> UnlogContextBase" where
  "Context_Construct n = \<lparr>ContextName = n, Counter = 0\<rparr>"

text \<open>\<open>UnlogContextBase::Static\<close>: the static of the class, constructed on first use.\<close>

definition Context_Static :: "string \<Rightarrow> world \<Rightarrow> UnlogContextBase \<times> world" where
  "Context_Static n w =
     (case ContextStatics w n of
        Some x \<Rightarrow> (x, w)
      | None \<Rightarrow> (Context_Construct n, w\<lparr>ContextStatics := (ContextStatics w)(n \<mapsto> Context_Construct n)\<rparr>))"

definition IncrementCounter :: "UnlogContextBase \<Rightarrow> UnlogContextBase" where
  "IncrementCounter x = x\<lparr>Counter := Counter x + 1\<rparr>"

definition DecrementCounter :: "UnlogContextBase \<Rightarrow> failure + UnlogContextBase" where
  "DecrementCounter x =
     (if Counter x > 0 then Inr (x\<lparr>Counter := Counter x - 1\<rparr>)
      else Inl (CheckFailed ''Counter > 0u''))"

definition IsActive :: "UnlogContextBase \<Rightarrow> bool" where
  "IsActive x = (Counter x > 0)"

text \<open>\<open>ActualType::Static().IsActive()\<close>, as a caller elsewhere asks it.\<close>

definition Static_IsActive :: "string \<Rightarrow> world \<Rightarrow> bool \<times> world" where
  "Static_IsActive n w = (case Context_Static n w of (x, w1) \<Rightarrow> (IsActive x, w1))"

definition WhenActive :: "string \<Rightarrow> (world \<Rightarrow> world) \<Rightarrow> world \<Rightarrow> world" where
  "WhenActive n Functor w = (case Static_IsActive n w of (b, w1) \<Rightarrow> if b then Functor w1 else w1)"

definition WhenNotActive :: "string \<Rightarrow> (world \<Rightarrow> world) \<Rightarrow> world \<Rightarrow> world" where
  "WhenNotActive n Functor w = (case Static_IsActive n w of (b, w1) \<Rightarrow> if \<not> b then Functor w1 else w1)"

text \<open>
  \<open>UnloggerScopedContext\<close>: the guard keeps the value it was made with;
  \<open>ActualType\<close> is its template parameter.
\<close>

record UnloggerScopedContext =
  ActualType :: string
  Value :: bool

definition UnloggerScopedContext_ctor :: "string \<Rightarrow> bool \<Rightarrow> world \<Rightarrow> UnloggerScopedContext \<times> world" where
  "UnloggerScopedContext_ctor n InValue w =
     (\<lparr>ActualType = n, Value = InValue\<rparr>,
      if InValue
      then (case Context_Static n w of
              (x, w1) \<Rightarrow> w1\<lparr>ContextStatics := (ContextStatics w1)(n \<mapsto> IncrementCounter x)\<rparr>)
      else w)"

definition UnloggerScopedContext_dtor :: "UnloggerScopedContext \<Rightarrow> world \<Rightarrow> failure + world" where
  "UnloggerScopedContext_dtor g w =
     (if Value g
      then (case Context_Static (ActualType g) w of
              (x, w1) \<Rightarrow>
                (case DecrementCounter x of
                   Inl e \<Rightarrow> Inl e
                 | Inr x1 \<Rightarrow> Inr (w1\<lparr>ContextStatics := (ContextStatics w1)(ActualType g \<mapsto> x1)\<rparr>)))
      else Inr w)"

text \<open>
  Guards whose lifetimes overlap in any way: a script opens guards and closes any
  guard that is still alive, in any order. The live guards are kept in the order of
  their construction; \<open>Close i\<close> destroys the one at position \<open>i\<close> and does nothing
  when there is none.
\<close>

datatype guard_op = Open string bool | Close nat

fun guard_step ::
  "guard_op \<Rightarrow> world \<times> UnloggerScopedContext list \<Rightarrow> failure + world \<times> UnloggerScopedContext list" where
  "guard_step (Open n b) (w, gs) =
     (case UnloggerScopedContext_ctor n b w of (g, w1) \<Rightarrow> Inr (w1, gs @ [g]))"
| "guard_step (Close i) (w, gs) =
     (if i < length gs
      then (case UnloggerScopedContext_dtor (gs ! i) w of
              Inl e \<Rightarrow> Inl e
            | Inr w1 \<Rightarrow> Inr (w1, take i gs @ drop (Suc i) gs))
      else Inr (w, gs))"

fun guard_run ::
  "guard_op list \<Rightarrow> world \<times> UnloggerScopedContext list \<Rightarrow> failure + world \<times> UnloggerScopedContext list" where
  "guard_run [] st = Inr st"
| "guard_run (x # xs) st =
     (case guard_step x st of Inl e \<Rightarrow> Inl e | Inr st1 \<Rightarrow> guard_run xs st1)"

text \<open>The number of live guards of a context that were made with \<open>true\<close>.\<close>

definition open_true :: "string \<Rightarrow> UnloggerScopedContext list \<Rightarrow> nat" where
  "open_true n gs = length (filter (\<lambda>g. ActualType g = n \<and> Value g) gs)"

section \<open>Numbered formatting\<close>

text \<open>
  Modelled from the spec: \<open>FString::Format\<close> belongs to the host engine and is not part
  of the repository. The spec (4.4) says of the numbered renderer: the template
  contains \<open>{0}\<close>, \<open>{1}\<close>, ... placeholders; arguments are substituted positionally
  by index; an argument may be referenced zero, one, or multiple times; an index with
  no corresponding argument is a formatting error, for which an implementation either
  reports an error or emits the literal placeholder. \<open>Format_spec\<close> follows these
  words and emits the literal placeholder in the last case, since the source takes the
  result of \<open>FString::Format\<close> as a string. Text that is not a placeholder is copied.
\<close>

definition is_digit :: "char \<Rightarrow> bool" where
  "is_digit c = (c \<in> set ''0123456789'')"

definition digit_value :: "char \<Rightarrow> nat" where
  "digit_value c = of_char c - 48"

definition index_of :: "string \<Rightarrow> nat" where
  "index_of ds = foldl (\<lambda>n c. 10 * n + digit_value c) 0 ds"

function decimal :: "nat \<Rightarrow> string" where
  "decimal n = (if n < 10 then [''0123456789'' ! n] else decimal (n div 10) @ [''0123456789'' ! (n mod 10)])"
  by pat_completeness auto
termination
  by (relation "measure (\<lambda>n. n)") auto

fun arg_text :: "FStringFormatArg \<Rightarrow> FString" where
  "arg_text (ArgInt i) = (if i < 0 then CHR ''-'' # decimal (nat (- i)) else decimal (nat i))"
| "arg_text (ArgUInt n) = decimal n"
| "arg_text (ArgString s) = s"

definition substitute :: "FStringFormatArg list \<Rightarrow> string \<Rightarrow> FString" where
  "substitute args ds =
     (if index_of ds < length args then arg_text (args ! index_of ds)
      else CHR ''{'' # ds @ ''}'')"

text \<open>
  The scan over the template: the second argument holds the digits read since an
  opening brace, when there is one.
\<close>

fun numbered :: "FStringFormatArg list \<Rightarrow> string option \<Rightarrow> string \<Rightarrow> FString" where
  "numbered args None [] = []"
| "numbered args (Some ds) [] = CHR ''{'' # ds"
| "numbered args None (c # cs) =
     (if c = CHR ''{'' then numbered args (Some []) cs else c # numbered args None cs)"
| "numbered args (Some ds) (c # cs) =
     (if is_digit c then numbered args (Some (ds @ [c])) cs
      else if c = CHR ''}'' \<and> ds \<noteq> [] then substitute args ds @ numbered args None cs
      else CHR ''{'' # ds @
           (if c = CHR ''{'' then numbered args (Some []) cs else c # numbered args None cs))"

definition Format_spec :: "FString \<Rightarrow> FStringFormatArg list \<Rightarrow> FString" where
  "Format_spec Format args = numbered args None Format"

text \<open>
  A template seen as a sequence of pieces: literal text and placeholders. \<open>piece_text\<close>
  is how a piece is written in the template, \<open>piece_value\<close> what it stands for.
\<close>

datatype piece = Lit string | Ref nat

fun piece_text :: "piece \<Rightarrow> string" where
  "piece_text (Lit s) = s"
| "piece_text (Ref i) = CHR ''{'' # decimal i @ ''}''"

fun piece_value :: "FStringFormatArg list \<Rightarrow> piece \<Rightarrow> FString" where
  "piece_value args (Lit s) = s"
| "piece_value args (Ref i) = arg_text (args ! i)"

fun piece_ok :: "FStringFormatArg list \<Rightarrow> piece \<Rightarrow> bool" where
  "piece_ok args (Lit s) = (CHR ''{'' \<notin> set s)"
| "piece_ok args (Ref i) = (i < length args)"

text \<open>A host whose numbered renderer is \<open>Format_spec\<close>; its printf renderer is left open.\<close>

definition numbered_host :: "(FString \<Rightarrow> FStringFormatArg list \<Rightarrow> FString) \<Rightarrow> host" where
  "numbered_host pf = \<lparr>FString_Format = Format_spec, FString_Printf = pf\<rparr>"

text \<open>
  A host for concrete runs: numbered templates are rendered by \<open>Format_spec\<close>, and
  the printf renderer, which those runs do not use, returns its template.
\<close>

definition plain_host :: host where
  "plain_host = numbered_host (\<lambda>Format Args. Format)"

text \<open>How often the instrumented callable has been invoked.\<close>

definition invocations :: "world \<Rightarrow> nat" where
  "invocations w = count_list (trace w) EvCondition"

fun is_ProcessLog :: "event \<Rightarrow> bool" where
  "is_ProcessLog (EvProcessLog n c v m) = True"
| "is_ProcessLog e = False"

text \<open>
  A settings class as a user writes one: \<open>PopulateSettings\<close> sets the default
  category to \<open>MyCategory\<close> and adds the runtime target \<open>MyTarget\<close>.
\<close>

definition MySettings :: TSettings where
  "MySettings =
     UserSettings ''MySettings'' [SetDefaultCategory (UNLOG_CATEGORY ''MyCategory''), AddTarget ''MyTarget'']"

text \<open>
  The counter of a context as the next call of \<open>Static\<close> finds it: zero when the
  static has not been constructed yet.
\<close>

definition Static_Counter :: "string \<Rightarrow> world \<Rightarrow> 32 word" where
  "Static_Counter n w = Counter (fst (Context_Static n w))"

text \<open>
  The counters agree with the live guards: the counter of every context is the
  number of its live guards that were made with \<open>true\<close>, as a \<open>uint32\<close>.
\<close>

definition counts_agree :: "world \<Rightarrow> UnloggerScopedContext list \<Rightarrow> bool" where
  "counts_agree w gs = (\<forall>n. Static_Counter n w = of_nat (open_true n gs))"

section \<open>Targets append to the trace\<close>

lemma fold_appends:
  assumes "\<And>t w. t \<in> set ts \<Longrightarrow> f t w = w\<lparr>trace := trace w @ g t\<rparr>"
  shows "fold f ts w = w\<lparr>trace := trace w @ concat (map g ts)\<rparr>"
  using assms by (induction ts arbitrary: w) simp_all

lemma Target_Call_appends:
  "\<exists>es. \<forall>w. Target_Call t c v m w = w\<lparr>trace := trace w @ es\<rparr>"
proof (induction t)
  case (TMultiTarget ts)
  then have "\<forall>t\<in>set ts. \<exists>es. \<forall>w. Target_Call t c v m w = w\<lparr>trace := trace w @ es\<rparr>"
    by blast
  then obtain g where g: "\<And>t w. t \<in> set ts \<Longrightarrow> Target_Call t c v m w = w\<lparr>trace := trace w @ g t\<rparr>"
    by metis
  have "\<forall>w. Target_Call (TMultiTarget ts) c v m w = w\<lparr>trace := trace w @ concat (map g ts)\<rparr>"
    using fold_appends [of ts "\<lambda>t. Target_Call t c v m" g] g by simp
  then show ?case by blast
qed (auto simp: emit_def GetLogListing_def Let_def)

lemma Target_Call_trace:
  "Target_Call t c v m w = w\<lparr>trace := trace w @ sink_calls t c v m\<rparr>"
proof -
  obtain es where es: "\<And>w. Target_Call t c v m w = w\<lparr>trace := trace w @ es\<rparr>"
    using Target_Call_appends by blast
  have "sink_calls t c v m = es"
    unfolding sink_calls_def by (subst es) (simp add: CreateLogger_def)
  with es show ?thesis by simp
qed

lemma sink_calls_TMultiTarget:
  "sink_calls (TMultiTarget ts) c v m = concat (map (\<lambda>t. sink_calls t c v m) ts)"
proof -
  have "fold (\<lambda>t. Target_Call t c v m) ts CreateLogger
      = CreateLogger\<lparr>trace := trace CreateLogger @ concat (map (\<lambda>t. sink_calls t c v m) ts)\<rparr>"
    by (rule fold_appends) (rule Target_Call_trace)
  then show ?thesis by (simp add: sink_calls_def CreateLogger_def)
qed

lemma sink_calls_leaf:
  "sink_calls UELog c v m = [EvLogf (GetName c) v m]"
  "sink_calls (UserTarget n) c v m = [EvUserTarget n c v m]"
  "sink_calls (TGameScreen d col) c v m = [EvOnScreenDebugMessage INDEX_NONE d col m]"
  "sink_calls MessageLog c v m =
     [EvGetLogListing (GetName c), EvSetLabel (GetName c) (GetName c),
      EvAddMessage (GetName c) (VerbosityToSeverity v) m] @
     (if v = Error then [EvOpenMessageLog (GetName c)] else [])"
  by (simp_all add: sink_calls_def CreateLogger_def emit_def GetLogListing_def Let_def)

lemma sink_calls_dispatch:
  "e \<in> set (sink_calls t c v m) \<Longrightarrow> is_dispatch e \<and> \<not> is_format e"
  by (induction t arbitrary: e) (auto simp: sink_calls_leaf sink_calls_TMultiTarget split: if_splits)

lemma filter_sink_calls:
  "filter is_dispatch (sink_calls t c v m) = sink_calls t c v m"
  "filter is_format (sink_calls t c v m) = []"
  using sink_calls_dispatch by (simp_all add: filter_id_conv filter_empty_conv)

section \<open>Category resolution\<close>

lemma Unlogger_PickCategory_total:
  "\<exists>T. Unlogger_PickCategory P w = Inr (Static T)"
  by (cases P) (auto simp: Unlogger_PickCategory_def Let_def)

section \<open>The template argument of the generated functions\<close>

text \<open>
  The generated functions do not read their template argument \<open>TCategory\<close>: a call
  such as \<open>Unlog::Log<C>(...)\<close> resolves its category as \<open>Unlog::Log(...)\<close> does.
\<close>

lemma FunctionName_TCategory_unused:
  "FunctionName E h P T v p TC f a w = FunctionName E h P T v p TC' f a w"
  "FunctionName_Condition E h P T v p TC b f a w = FunctionName_Condition E h P T v p TC' b f a w"
  "FunctionName_LambdaCondition E h P T v p TC L f a w =
     FunctionName_LambdaCondition E h P T v p TC' L f a w"
  by (simp_all add: FunctionName_def FunctionName_Condition_def FunctionName_LambdaCondition_def)

section \<open>The verbosity filter\<close>

text \<open>
  C1. A call of \<open>UnlogPrivateImpl\<close> whose category resolves to \<open>c\<close> changes nothing but
  the trace. When the call's verbosity is at most the threshold of \<open>c\<close> and is not
  \<open>NoLogging\<close>, it evaluates the filter, renders the format string once and hands the
  rendered message to the configured target; otherwise it evaluates the filter only:
  no rendering and no call to any sink.
\<close>

theorem UnlogPrivateImpl_emission:
  assumes "Unlogger_PickCategory (CategoryPicker cfg) w = Inr c"
  shows "\<exists>evs. UnlogPrivateImpl h cfg Format v Args w = Inr (w\<lparr>trace := trace w @ evs\<rparr>) \<and>
     (if verbosity_value v \<le> verbosity_value (GetVerbosity c) \<and> v \<noteq> NoLogging
      then evs = [EvFilter c v, EvFormat (IsPrintfFormat (FormatOptions cfg)) Format Args] @
                 sink_calls (TargetOptions cfg) c v (ProcessFormatString h (FormatOptions cfg) Format Args)
         \<and> filter is_format evs = [EvFormat (IsPrintfFormat (FormatOptions cfg)) Format Args]
         \<and> filter is_dispatch evs =
             sink_calls (TargetOptions cfg) c v (ProcessFormatString h (FormatOptions cfg) Format Args)
      else evs = [EvFilter c v] \<and> filter is_format evs = [] \<and> filter is_dispatch evs = [])"
  using assms
  by (simp add: UnlogPrivateImpl_def Let_def Target_Call_trace emit_def filter_sink_calls)

theorem UnlogPrivateImpl_emission_witness:
  "Unlogger_PickCategory
     (CategoryPicker (TStaticConfiguration (TFormatOptions False) (TDeriveCategory LogGeneral) UELog))
     CreateLogger = Inr (Static LogGeneral) \<and>
   UnlogPrivateImpl plain_host
     (TStaticConfiguration (TFormatOptions False) (TDeriveCategory LogGeneral) UELog)
     ''{0}'' Warning [ArgString ''a''] CreateLogger =
   Inr (CreateLogger\<lparr>trace :=
     [EvFilter (Static LogGeneral) Warning, EvFormat False ''{0}'' [ArgString ''a''],
      EvLogf ''LogGeneral'' Warning ''a'']\<rparr>) \<and>
   UnlogPrivateImpl plain_host
     (TStaticConfiguration (TFormatOptions False) (TDeriveCategory LogGeneral) UELog)
     ''{0}'' Verbose [ArgString ''a''] CreateLogger =
   Inr (CreateLogger\<lparr>trace := [EvFilter (Static LogGeneral) Verbose]\<rparr>)"
proof -
  let ?cfg = "TStaticConfiguration (TFormatOptions False) (TDeriveCategory LogGeneral) UELog"
  have p: "Unlogger_PickCategory (CategoryPicker ?cfg) CreateLogger = Inr (Static LogGeneral)"
    by (simp add: Unlogger_PickCategory_def CreateLogger_def)
  have r: "ProcessFormatString plain_host (TFormatOptions False) ''{0}'' [ArgString ''a''] = ''a''"
    by (simp add: ProcessFormatString_def plain_host_def numbered_host_def ResolveString_def Format_spec_def
        is_digit_def substitute_def index_of_def digit_value_def)
  have t: "trace CreateLogger = []"
    by (simp add: CreateLogger_def)
  have g: "GetVerbosity (Static LogGeneral) = Log" "GetName (Static LogGeneral) = ''LogGeneral''"
    by (simp_all add: GetVerbosity_def GetName_def Static_def LogGeneral_def)
  show ?thesis
    using p
      UnlogPrivateImpl_emission [OF p, of plain_host "''{0}''" Warning "[ArgString ''a'']"]
      UnlogPrivateImpl_emission [OF p, of plain_host "''{0}''" Verbose "[ArgString ''a'']"]
    by (simp add: r t g sink_calls_leaf)
qed

text \<open>A call of the core never fails and changes nothing but the trace.\<close>

lemma UnlogPrivateImpl_appends:
  "\<exists>evs. UnlogPrivateImpl h cfg Format v Args w = Inr (w\<lparr>trace := trace w @ evs\<rparr>)"
proof -
  obtain T where "Unlogger_PickCategory (CategoryPicker cfg) w = Inr (Static T)"
    using Unlogger_PickCategory_total by blast
  then show ?thesis
    by (auto simp: UnlogPrivateImpl_def Let_def Target_Call_trace emit_def)
qed

section \<open>Composite targets\<close>

text \<open>
  C5. One emission to \<open>TMultiTarget ts\<close> calls every member target once, in the order
  of \<open>ts\<close>, each with the same category, verbosity and message: the trace grows by
  the sink calls of the members, one member after the other. For members that are
  opaque sinks the trace shows one call per sink, in order, with identical arguments.
  A member that is itself a composite fans out in place.
\<close>

theorem TMultiTarget_fan_out:
  "Target_Call (TMultiTarget ts) c v m w =
     w\<lparr>trace := trace w @ concat (map (\<lambda>t. sink_calls t c v m) ts)\<rparr> \<and>
   Target_Call (TMultiTarget (map UserTarget ns)) c v m w =
     w\<lparr>trace := trace w @ map (\<lambda>n. EvUserTarget n c v m) ns\<rparr> \<and>
   Target_Call (TMultiTarget [t1, TMultiTarget ts]) c v m w =
     w\<lparr>trace := trace w @ sink_calls t1 c v m @ concat (map (\<lambda>t. sink_calls t c v m) ts)\<rparr>"
proof -
  have a: "\<And>ts. Target_Call (TMultiTarget ts) c v m w =
     w\<lparr>trace := trace w @ concat (map (\<lambda>t. sink_calls t c v m) ts)\<rparr>"
    by (simp only: Target_Call_trace sink_calls_TMultiTarget)
  have b: "concat (map (\<lambda>t. sink_calls t c v m) (map UserTarget ns)) = map (\<lambda>n. EvUserTarget n c v m) ns"
    by (induction ns) (simp_all add: sink_calls_leaf)
  show ?thesis
    using a [of ts] a [of "map UserTarget ns"] a [of "[t1, TMultiTarget ts]"] b
    by (simp add: sink_calls_TMultiTarget)
qed

theorem TMultiTarget_fan_out_witness:
  "Target_Call (TMultiTarget [UserTarget ''S1'', UserTarget ''S2'', UserTarget ''S3''])
     (Static LogGeneral) Warning ''msg'' CreateLogger =
   CreateLogger\<lparr>trace :=
     [EvUserTarget ''S1'' (Static LogGeneral) Warning ''msg'',
      EvUserTarget ''S2'' (Static LogGeneral) Warning ''msg'',
      EvUserTarget ''S3'' (Static LogGeneral) Warning ''msg'']\<rparr>"
  using TMultiTarget_fan_out [of "[]" "Static LogGeneral" Warning "''msg''" CreateLogger
      "[''S1'', ''S2'', ''S3'']" UELog]
  by (simp add: CreateLogger_def)

section \<open>Categories declared with the macro\<close>

text \<open>
  C10. The class \<open>UNLOG_CATEGORY\<close> generates for an identifier constructs its
  object with that identifier as name and \<open>Log\<close> as threshold. A call at \<open>Verbose\<close>
  or \<open>VeryVerbose\<close> that resolves to such a category evaluates the filter and
  nothing more: no rendering, no sink call.
\<close>

theorem UNLOG_CATEGORY_threshold:
  "Construct (UNLOG_CATEGORY n) = \<lparr>CategoryName = n, Verbosity = Log\<rparr> \<and>
   GetName (Static (UNLOG_CATEGORY n)) = n \<and>
   GetVerbosity (Static (UNLOG_CATEGORY n)) = Log \<and>
   (Unlogger_PickCategory (CategoryPicker cfg) w = Inr (Static (UNLOG_CATEGORY n)) \<and>
    (v = Verbose \<or> v = VeryVerbose) \<longrightarrow>
    UnlogPrivateImpl h cfg Format v Args w =
      Inr (w\<lparr>trace := trace w @ [EvFilter (Static (UNLOG_CATEGORY n)) v]\<rparr>) \<and>
    filter is_format [EvFilter (Static (UNLOG_CATEGORY n)) v] = [] \<and>
    filter is_dispatch [EvFilter (Static (UNLOG_CATEGORY n)) v] = [])"
  by (auto simp: UnlogPrivateImpl_def Let_def emit_def GetName_def GetVerbosity_def Static_def)

theorem UNLOG_CATEGORY_threshold_witness:
  "Unlogger_PickCategory (CategoryPicker (TStaticConfiguration (TFormatOptions False)
       (TSpecificCategory (UNLOG_CATEGORY ''TestCategory'')) UELog)) CreateLogger =
     Inr (Static (UNLOG_CATEGORY ''TestCategory'')) \<and>
   UnlogPrivateImpl plain_host
     (TStaticConfiguration (TFormatOptions False) (TSpecificCategory (UNLOG_CATEGORY ''TestCategory'')) UELog)
     ''D'' Verbose [] CreateLogger =
   Inr (CreateLogger\<lparr>trace := [EvFilter \<lparr>CategoryName = ''TestCategory'', Verbosity = Log\<rparr> Verbose]\<rparr>)"
proof -
  let ?cfg = "TStaticConfiguration (TFormatOptions False) (TSpecificCategory (UNLOG_CATEGORY ''TestCategory'')) UELog"
  have p: "Unlogger_PickCategory (CategoryPicker ?cfg) CreateLogger = Inr (Static (UNLOG_CATEGORY ''TestCategory''))"
    by (simp add: Unlogger_PickCategory_def CreateLogger_def)
  have t: "trace CreateLogger = []"
    by (simp add: CreateLogger_def)
  show ?thesis
    using p UNLOG_CATEGORY_threshold [of "''TestCategory''" ?cfg CreateLogger Verbose
        plain_host "''D''" "[]"]
    by (simp add: t Static_def)
qed

section \<open>The events of a call\<close>

lemma Unlogger_PickCategory_trace:
  "Unlogger_PickCategory P (w\<lparr>trace := tr\<rparr>) = Unlogger_PickCategory P w"
  by (simp add: Unlogger_PickCategory_def)

lemma UnlogPrivateImpl_events:
  assumes "Unlogger_PickCategory (CategoryPicker cfg) w = Inr c"
  shows "UnlogPrivateImpl h cfg Format v Args w =
     Inr (w\<lparr>trace := trace w @ EvFilter c v #
        (if verbosity_value v \<le> verbosity_value (GetVerbosity c) \<and> v \<noteq> NoLogging
         then EvFormat (IsPrintfFormat (FormatOptions cfg)) Format Args #
              sink_calls (TargetOptions cfg) c v (ProcessFormatString h (FormatOptions cfg) Format Args)
         else [])\<rparr>)"
  using assms
  by (simp add: UnlogPrivateImpl_def Let_def Target_Call_trace emit_def)

lemma sink_calls_no_condition: "EvCondition \<notin> set (sink_calls t c v m)"
  using sink_calls_dispatch [of EvCondition t c v m] by auto

lemma UnlogPrivateImpl_invocations:
  "\<exists>w'. UnlogPrivateImpl h cfg Format v Args w = Inr w' \<and> invocations w' = invocations w"
proof -
  obtain T where p: "Unlogger_PickCategory (CategoryPicker cfg) w = Inr (Static T)"
    using Unlogger_PickCategory_total by blast
  show ?thesis
    by (simp add: UnlogPrivateImpl_events [OF p] invocations_def sink_calls_no_condition)
qed

section \<open>Precedence of category resolution\<close>

text \<open>
  Resolution through a flavor and through the macro. \<open>WithCategory\<close> gives a
  flavor the picker \<open>TSpecificCategory\<close>, and
  \<open>WithDefaultCategory\<close> the picker \<open>TDeriveCategory\<close>. A specific category is
  picked whatever the stack of pushed categories holds. A deriving picker yields the
  category pushed last when the stack is not empty, and its default category when the
  stack is empty. The filter event of a call shows the category the call resolved to:
  the explicit one for a flavor made by \<open>WithCategory\<close> and for a macro call that
  names a category, the top of the stack or else the default for a flavor made by
  \<open>WithDefaultCategory\<close>.
\<close>

theorem category_resolution_precedence:
  "Unlog_CategoryPicker (WithCategory U T) = TSpecificCategory T \<and>
   Unlog_CategoryPicker (WithDefaultCategory U D) = TDeriveCategory D \<and>
   Unlogger_PickCategory (TSpecificCategory T) w = Inr (Static T) \<and>
   (PushedCategories w \<noteq> [] \<longrightarrow>
      Unlogger_PickCategory (TDeriveCategory D) w = Inr (Static (last (PushedCategories w)))) \<and>
   (PushedCategories w = [] \<longrightarrow>
      Unlogger_PickCategory (TDeriveCategory D) w = Inr (Static D)) \<and>
   (\<exists>evs. Unlog_call True h (WithCategory U T) v p f a w =
      Inr (w\<lparr>trace := trace w @ EvFilter (Static T) v # evs\<rparr>)) \<and>
   (\<exists>evs. UNLOG True h U p (MacroArgs_TCategory T) v f a w =
      Inr (w\<lparr>trace := trace w @ EvFilter (Static T) v # evs\<rparr>)) \<and>
   (\<exists>evs. Unlog_call True h (WithDefaultCategory U D) v p f a w =
      Inr (w\<lparr>trace := trace w @
        EvFilter (Static (if PushedCategories w = [] then D else last (PushedCategories w))) v # evs\<rparr>))"
proof -
  have s: "Unlogger_PickCategory (TSpecificCategory T) w = Inr (Static T)"
    by (simp add: Unlogger_PickCategory_def)
  have d: "Unlogger_PickCategory (TDeriveCategory D) w =
      Inr (Static (if PushedCategories w = [] then D else last (PushedCategories w)))"
    by (simp add: Unlogger_PickCategory_def)
  have c1: "\<exists>evs. Unlog_call True h (WithCategory U T) v p f a w =
      Inr (w\<lparr>trace := trace w @ EvFilter (Static T) v # evs\<rparr>)"
    by (auto simp: Unlog_call_def FunctionName_def WithCategory_def UnlogPrivateImpl_events [where c = "Static T"] s)
  have c2: "\<exists>evs. UNLOG True h U p (MacroArgs_TCategory T) v f a w =
      Inr (w\<lparr>trace := trace w @ EvFilter (Static T) v # evs\<rparr>)"
    by (auto simp: UNLOG_def UnlogMacroExpand_def UnlogPrivateImpl_events [where c = "Static T"] s)
  have c3: "\<exists>evs. Unlog_call True h (WithDefaultCategory U D) v p f a w =
      Inr (w\<lparr>trace := trace w @
        EvFilter (Static (if PushedCategories w = [] then D else last (PushedCategories w))) v # evs\<rparr>)"
    by (auto simp: Unlog_call_def FunctionName_def WithDefaultCategory_def d
        UnlogPrivateImpl_events [where c = "Static (if PushedCategories w = [] then D else last (PushedCategories w))"])
  show ?thesis
    using s d c1 c2 c3 by (simp add: WithCategory_def WithDefaultCategory_def)
qed


theorem category_resolution_precedence_witness:
  "PushedCategories (PushCategory (UNLOG_CATEGORY ''A'') CreateLogger) \<noteq> [] \<and>
   Unlogger_PickCategory (TDeriveCategory (UNLOG_CATEGORY ''D''))
     (PushCategory (UNLOG_CATEGORY ''A'') CreateLogger) = Inr (Static (UNLOG_CATEGORY ''A'')) \<and>
   PopCategory (PushCategory (UNLOG_CATEGORY ''A'') CreateLogger) = Inr CreateLogger \<and>
   PushedCategories CreateLogger = [] \<and>
   Unlogger_PickCategory (TDeriveCategory (UNLOG_CATEGORY ''D'')) CreateLogger =
     Inr (Static (UNLOG_CATEGORY ''D'')) \<and>
   Unlogger_PickCategory (TSpecificCategory (UNLOG_CATEGORY ''E''))
     (PushCategory (UNLOG_CATEGORY ''A'') CreateLogger) = Inr (Static (UNLOG_CATEGORY ''E''))"
proof -
  let ?w = "PushCategory (UNLOG_CATEGORY ''A'') CreateLogger"
  have a: "PushedCategories ?w \<noteq> []" "last (PushedCategories ?w) = UNLOG_CATEGORY ''A''"
    by (simp_all add: PushCategory_def)
  have b: "PushedCategories CreateLogger = []"
    by (simp add: CreateLogger_def)
  have c: "PopCategory ?w = Inr CreateLogger"
    by (simp add: PopCategory_def PushCategory_def CreateLogger_def)
  show ?thesis
    using a b c
      category_resolution_precedence [of Unlog_default "UNLOG_CATEGORY ''E''" "UNLOG_CATEGORY ''D''" ?w
        plain_host Log False "''m''" "[]"]
      category_resolution_precedence [of Unlog_default "UNLOG_CATEGORY ''E''" "UNLOG_CATEGORY ''D''" CreateLogger
        plain_host Log False "''m''" "[]"]
    by simp
qed

text \<open>
  C2. The precedence explicit, then top of the stack, then default of the flavor
  holds for a category given through the flavor or through the macro, and fails for
  a category given at the call as template argument: the generated function builds
  its configuration from the picker of the flavor and never reads \<open>TCategory\<close>. The
  call \<open>Unlog::Log<TestCategory>("A")\<close> through the default flavor resolves to
  \<open>LogGeneral\<close> when no category is pushed, and to the pushed category \<open>Scope\<close>
  under a guard for \<open>Scope\<close>; in neither run does it resolve to \<open>TestCategory\<close>.
\<close>

theorem call_site_category_ignored:
  "FunctionName True plain_host (Unlog_CategoryPicker Unlog_default) (Unlog_TargetOptions Unlog_default)
     Log False (CategoryCRTP (UNLOG_CATEGORY ''TestCategory'')) ''A'' [] CreateLogger =
   Inr (CreateLogger\<lparr>trace :=
     [EvFilter \<lparr>CategoryName = ''LogGeneral'', Verbosity = Log\<rparr> Log,
      EvFormat False ''A'' [],
      EvLogf ''LogGeneral'' Log ''A'']\<rparr>) \<and>
   FunctionName True plain_host (Unlog_CategoryPicker Unlog_default) (Unlog_TargetOptions Unlog_default)
     Log False (CategoryCRTP (UNLOG_CATEGORY ''TestCategory'')) ''A'' []
     (PushCategory (UNLOG_CATEGORY ''Scope'') CreateLogger) =
   Inr ((PushCategory (UNLOG_CATEGORY ''Scope'') CreateLogger)\<lparr>trace :=
     [EvFilter \<lparr>CategoryName = ''Scope'', Verbosity = Log\<rparr> Log,
      EvFormat False ''A'' [],
      EvLogf ''Scope'' Log ''A'']\<rparr>)"
proof -
  let ?w = "PushCategory (UNLOG_CATEGORY ''Scope'') CreateLogger"
  have r: "ProcessFormatString plain_host (TFormatOptions False) ''A'' [] = ''A''"
    by (simp add: ProcessFormatString_def plain_host_def numbered_host_def ResolveString_def
        Format_spec_def)
  have p1: "Unlogger_PickCategory (TDeriveCategory LogGeneral) CreateLogger =
      Inr \<lparr>CategoryName = ''LogGeneral'', Verbosity = Log\<rparr>"
    by (simp add: Unlogger_PickCategory_def CreateLogger_def Static_def LogGeneral_def)
  have p2: "Unlogger_PickCategory (TDeriveCategory LogGeneral) ?w =
      Inr \<lparr>CategoryName = ''Scope'', Verbosity = Log\<rparr>"
    by (simp add: Unlogger_PickCategory_def PushCategory_def Static_def)
  have t: "trace CreateLogger = []" "trace ?w = []"
    by (simp_all add: CreateLogger_def PushCategory_def)
  have c1: "FunctionName True plain_host (Unlog_CategoryPicker Unlog_default) (Unlog_TargetOptions Unlog_default)
     Log False (CategoryCRTP (UNLOG_CATEGORY ''TestCategory'')) ''A'' [] CreateLogger =
   Inr (CreateLogger\<lparr>trace :=
     [EvFilter \<lparr>CategoryName = ''LogGeneral'', Verbosity = Log\<rparr> Log,
      EvFormat False ''A'' [],
      EvLogf ''LogGeneral'' Log ''A'']\<rparr>)"
    using p1
    by (simp add: FunctionName_def Unlog_default_def Target_Default_def
        UnlogPrivateImpl_events [where c = "\<lparr>CategoryName = ''LogGeneral'', Verbosity = Log\<rparr>"]
        t r sink_calls_leaf GetVerbosity_def GetName_def)
  have c2: "FunctionName True plain_host (Unlog_CategoryPicker Unlog_default) (Unlog_TargetOptions Unlog_default)
     Log False (CategoryCRTP (UNLOG_CATEGORY ''TestCategory'')) ''A'' [] ?w =
   Inr (?w\<lparr>trace :=
     [EvFilter \<lparr>CategoryName = ''Scope'', Verbosity = Log\<rparr> Log,
      EvFormat False ''A'' [],
      EvLogf ''Scope'' Log ''A'']\<rparr>)"
    using p2
    by (simp add: FunctionName_def Unlog_default_def Target_Default_def
        UnlogPrivateImpl_events [where c = "\<lparr>CategoryName = ''Scope'', Verbosity = Log\<rparr>"]
        t r sink_calls_leaf GetVerbosity_def GetName_def)
  from c1 c2 show ?thesis by simp
qed

section \<open>The three shapes of a call\<close>

text \<open>
  C3. The overload with a boolean condition that is true does what the unconditional
  overload does; the overload with a callable that returns true does what the
  unconditional overload does in the state the callable left. A false condition
  leaves the state as it is, and a callable that returns false leaves the state the
  callable left: no filter, no rendering, no sink call. With the instrumented
  callable the trace shows the order: the callable, the filter, the rendering, the
  sink calls, and it ends after the first stage that fails.
\<close>

theorem call_shapes_equivalent:
  "FunctionName_Condition E h P T v p TC True f a w = FunctionName E h P T v p TC f a w \<and>
   FunctionName_Condition E h P T v p TC False f a w = Inr w \<and>
   (fst (L w) \<longrightarrow>
      FunctionName_LambdaCondition True h P T v p TC L f a w =
      FunctionName True h P T v p TC f a (snd (L w))) \<and>
   (\<not> fst (L w) \<longrightarrow>
      FunctionName_LambdaCondition True h P T v p TC L f a w = Inr (snd (L w))) \<and>
   FunctionName_LambdaCondition True h P T v p TC (probe False) f a w = Inr (emit EvCondition w) \<and>
   (Unlogger_PickCategory P w = Inr c \<longrightarrow>
      FunctionName True h P T v p TC f a w =
        Inr (w\<lparr>trace := trace w @ EvFilter c v #
          (if verbosity_value v \<le> verbosity_value (GetVerbosity c) \<and> v \<noteq> NoLogging
           then EvFormat p f a # sink_calls T c v (ProcessFormatString h (TFormatOptions p) f a)
           else [])\<rparr>) \<and>
      FunctionName_LambdaCondition True h P T v p TC (probe True) f a w =
        Inr (w\<lparr>trace := trace w @ EvCondition # EvFilter c v #
          (if verbosity_value v \<le> verbosity_value (GetVerbosity c) \<and> v \<noteq> NoLogging
           then EvFormat p f a # sink_calls T c v (ProcessFormatString h (TFormatOptions p) f a)
           else [])\<rparr>))"
proof -
  have 1: "FunctionName_Condition E h P T v p TC True f a w = FunctionName E h P T v p TC f a w"
    by (simp add: FunctionName_Condition_def FunctionName_def)
  have 2: "FunctionName_Condition E h P T v p TC False f a w = Inr w"
    by (simp add: FunctionName_Condition_def)
  have 3: "fst (L w) \<longrightarrow>
      FunctionName_LambdaCondition True h P T v p TC L f a w =
      FunctionName True h P T v p TC f a (snd (L w))"
    by (simp add: FunctionName_LambdaCondition_def FunctionName_Condition_def FunctionName_def
        split: prod.splits)
  have 4: "\<not> fst (L w) \<longrightarrow>
      FunctionName_LambdaCondition True h P T v p TC L f a w = Inr (snd (L w))"
    by (simp add: FunctionName_LambdaCondition_def FunctionName_Condition_def split: prod.splits)
  have 5: "FunctionName_LambdaCondition True h P T v p TC (probe False) f a w = Inr (emit EvCondition w)"
    by (simp add: FunctionName_LambdaCondition_def FunctionName_Condition_def probe_def)
  have 6: "FunctionName True h P T v p TC f a w =
        Inr (w\<lparr>trace := trace w @ EvFilter c v #
          (if verbosity_value v \<le> verbosity_value (GetVerbosity c) \<and> v \<noteq> NoLogging
           then EvFormat p f a # sink_calls T c v (ProcessFormatString h (TFormatOptions p) f a)
           else [])\<rparr>)"
    if "Unlogger_PickCategory P w = Inr c"
    using that by (simp add: FunctionName_def UnlogPrivateImpl_events [where c = c])
  have 7: "FunctionName_LambdaCondition True h P T v p TC (probe True) f a w =
        Inr (w\<lparr>trace := trace w @ EvCondition # EvFilter c v #
          (if verbosity_value v \<le> verbosity_value (GetVerbosity c) \<and> v \<noteq> NoLogging
           then EvFormat p f a # sink_calls T c v (ProcessFormatString h (TFormatOptions p) f a)
           else [])\<rparr>)"
    if "Unlogger_PickCategory P w = Inr c"
  proof -
    have "Unlogger_PickCategory P (emit EvCondition w) = Inr c"
      using that by (simp add: emit_def Unlogger_PickCategory_trace)
    then show ?thesis
      by (simp add: FunctionName_LambdaCondition_def FunctionName_Condition_def probe_def
          UnlogPrivateImpl_events [where c = c] emit_def)
  qed
  show ?thesis
    using 1 2 3 4 5 6 7 by blast
qed

theorem call_shapes_equivalent_witness:
  "fst (probe True CreateLogger) \<and>
   \<not> fst (probe False CreateLogger) \<and>
   Unlogger_PickCategory (TDeriveCategory LogGeneral) CreateLogger = Inr (Static LogGeneral) \<and>
   FunctionName True plain_host (TDeriveCategory LogGeneral) UELog Warning False
     (TDeriveCategory LogGeneral) ''Y'' [] CreateLogger =
     Inr (CreateLogger\<lparr>trace :=
       [EvFilter (Static LogGeneral) Warning, EvFormat False ''Y'' [], EvLogf ''LogGeneral'' Warning ''Y'']\<rparr>) \<and>
   FunctionName_LambdaCondition True plain_host (TDeriveCategory LogGeneral) UELog Warning False
     (TDeriveCategory LogGeneral) (probe True) ''Y'' [] CreateLogger =
     Inr (CreateLogger\<lparr>trace :=
       [EvCondition, EvFilter (Static LogGeneral) Warning, EvFormat False ''Y'' [],
        EvLogf ''LogGeneral'' Warning ''Y'']\<rparr>) \<and>
   FunctionName_LambdaCondition True plain_host (TDeriveCategory LogGeneral) UELog Warning False
     (TDeriveCategory LogGeneral) (probe False) ''Y'' [] CreateLogger =
     Inr (CreateLogger\<lparr>trace := [EvCondition]\<rparr>)"
proof -
  have p: "Unlogger_PickCategory (TDeriveCategory LogGeneral) CreateLogger = Inr (Static LogGeneral)"
    by (simp add: Unlogger_PickCategory_def CreateLogger_def)
  have q: "fst (probe True CreateLogger)" "\<not> fst (probe False CreateLogger)"
    "snd (probe False CreateLogger) = CreateLogger\<lparr>trace := [EvCondition]\<rparr>"
    by (simp_all add: probe_def emit_def CreateLogger_def)
  have r: "ProcessFormatString plain_host (TFormatOptions False) ''Y'' [] = ''Y''"
    by (simp add: ProcessFormatString_def plain_host_def numbered_host_def ResolveString_def
        Format_spec_def)
  have t: "trace CreateLogger = []"
    by (simp add: CreateLogger_def)
  have g: "GetVerbosity (Static LogGeneral) = Log" "GetName (Static LogGeneral) = ''LogGeneral''"
    by (simp_all add: GetVerbosity_def GetName_def Static_def LogGeneral_def)
  show ?thesis
    using p q
      call_shapes_equivalent [of True plain_host "TDeriveCategory LogGeneral" UELog Warning False
        "TDeriveCategory LogGeneral" "''Y''" "[]" CreateLogger "probe False" "Static LogGeneral"]
      call_shapes_equivalent [of True plain_host "TDeriveCategory LogGeneral" UELog Warning False
        "TDeriveCategory LogGeneral" "''Y''" "[]" CreateLogger "probe True" "Static LogGeneral"]
    by (simp add: r t g sink_calls_leaf)
qed

section \<open>Invocations of the condition callable\<close>

text \<open>
  C8, as stated, fails: with logging enabled, a callable that returns false has been
  invoked once when the call returns, since the callable is the guard.
\<close>

theorem lazy_condition_counterexample:
  "FunctionName_LambdaCondition True plain_host (TDeriveCategory LogGeneral) UELog Warning False
     (TDeriveCategory LogGeneral) (probe False) ''Y'' [] CreateLogger =
     Inr (CreateLogger\<lparr>trace := [EvCondition]\<rparr>) \<and>
   fst (probe False CreateLogger) = False \<and>
   invocations CreateLogger = 0 \<and>
   invocations (CreateLogger\<lparr>trace := [EvCondition]\<rparr>) = 1"
  by (simp add: FunctionName_LambdaCondition_def FunctionName_Condition_def probe_def emit_def
      invocations_def CreateLogger_def)

text \<open>
  C8, amended. With logging disabled the overload with a callable returns the state
  it was given, whatever the callable is: the callable is not invoked. With logging
  enabled the instrumented callable is invoked exactly once per call, whatever it
  returns, and when it returns false nothing else happens.
\<close>

theorem lazy_condition_invocations:
  "FunctionName_LambdaCondition False h P T v p TC L f a w = Inr w \<and>
   (\<exists>w'. FunctionName_LambdaCondition True h P T v p TC (probe b) f a w = Inr w' \<and>
         invocations w' = invocations w + 1) \<and>
   FunctionName_LambdaCondition True h P T v p TC (probe False) f a w = Inr (emit EvCondition w)"
proof -
  have 1: "FunctionName_LambdaCondition False h P T v p TC L f a w = Inr w"
    by (simp add: FunctionName_LambdaCondition_def)
  have 3: "FunctionName_LambdaCondition True h P T v p TC (probe False) f a w = Inr (emit EvCondition w)"
    by (simp add: FunctionName_LambdaCondition_def FunctionName_Condition_def probe_def)
  have e: "invocations (emit EvCondition w) = invocations w + 1"
    by (simp add: invocations_def emit_def)
  have 2: "\<exists>w'. FunctionName_LambdaCondition True h P T v p TC (probe b) f a w = Inr w' \<and>
         invocations w' = invocations w + 1"
  proof (cases b)
    case True
    obtain w' where "UnlogPrivateImpl h (TStaticConfiguration (TFormatOptions p) P T) f v a
        (emit EvCondition w) = Inr w'" "invocations w' = invocations (emit EvCondition w)"
      using UnlogPrivateImpl_invocations by blast
    with True e show ?thesis
      by (simp add: FunctionName_LambdaCondition_def FunctionName_Condition_def probe_def)
  next
    case False
    with 3 e show ?thesis by simp
  qed
  from 1 2 3 show ?thesis by blast
qed

section \<open>Scoped category guards\<close>

lemma ApplyRuntimeSettingsInternal_fields:
  "PushedCategories (ApplyRuntimeSettingsInternal S w) = PushedCategories w"
  "trace (ApplyRuntimeSettingsInternal S w) = trace w"
  "ContextStatics (ApplyRuntimeSettingsInternal S w) = ContextStatics w"
  "Settings (ApplyRuntimeSettingsInternal S w) = S"
  by (simp_all add: ApplyRuntimeSettingsInternal_def Settings_Static_def split: option.splits)

text \<open>Every program ends, and leaves the stack of pushed categories as it found it.\<close>

lemma exec_balanced:
  "\<exists>w'. exec h s w = Inr w' \<and> PushedCategories w' = PushedCategories w"
  "\<exists>w'. exec_block h ss w = Inr w' \<and> PushedCategories w' = PushedCategories w"
proof (induction h s w and h ss w rule: exec_exec_block.induct)
  case (1 h U v p f a w)
  obtain evs where "UnlogPrivateImpl h
      (TStaticConfiguration (TFormatOptions p) (Unlog_CategoryPicker U) (Unlog_TargetOptions U)) f v a w =
      Inr (w\<lparr>trace := trace w @ evs\<rparr>)"
    using UnlogPrivateImpl_appends by blast
  then show ?case
    by (simp add: Unlog_call_def FunctionName_def)
next
  case (2 h U ma v p f a w)
  obtain evs where "UnlogPrivateImpl h
      (TStaticConfiguration (TFormatOptions p) (Unlog_CategoryPicker (GetSettings ma U))
         (Unlog_TargetOptions (GetSettings ma U))) f v a w =
      Inr (w\<lparr>trace := trace w @ evs\<rparr>)"
    using UnlogPrivateImpl_appends by blast
  then show ?case
    by (simp add: UNLOG_def UnlogMacroExpand_def)
next
  case (3 h T w)
  show ?case
    by (simp add: ApplyRuntimeSettings_def ApplyRuntimeSettingsInternal_fields)
next
  case (4 h T body w)
  then obtain w1 where w1: "exec_block h body (FUnlogScopedCategory_ctor T w) = Inr w1"
      "PushedCategories w1 = PushedCategories (FUnlogScopedCategory_ctor T w)"
    by blast
  then show ?case
    by (simp add: FUnlogScopedCategory_ctor_def FUnlogScopedCategory_dtor_def PushCategory_def
        PopCategory_def)
next
  case (5 h w)
  show ?case by simp
next
  case (6 h s ss w)
  then obtain w1 where w1: "exec h s w = Inr w1" "PushedCategories w1 = PushedCategories w"
    by blast
  with 6(2) [of w1] show ?case by simp
qed

text \<open>
  C4. The constructor of a scoped category guard pushes its category on top of the
  stack, and the destructor that follows pops that entry and gives the state back.
  A block under a guard runs with the category on top of what was there, the block's
  own statements (log calls, installed settings, nested guarded blocks) leave the
  stack as they found it, so the destructor at the end of the block pops the entry
  the constructor pushed and the stack is what it was before the block. The core's
  log call and the installation of settings do not touch the stack. From an empty
  stack, guards for \<open>A\<close> and then \<open>B\<close> give \<open>[A, B]\<close>, leaving the inner scope
  gives \<open>[A]\<close>, leaving the outer scope gives the empty stack.
\<close>

theorem FUnlogScopedCategory_balanced:
  "PushedCategories (FUnlogScopedCategory_ctor T w) = PushedCategories w @ [T] \<and>
   FUnlogScopedCategory_dtor (FUnlogScopedCategory_ctor T w) = Inr w \<and>
   (\<exists>w1 w2. exec_block h body (FUnlogScopedCategory_ctor T w) = Inr w1 \<and>
      PushedCategories w1 = PushedCategories w @ [T] \<and>
      FUnlogScopedCategory_dtor w1 = Inr w2 \<and>
      exec h (CategoryScope T body) w = Inr w2 \<and>
      PushedCategories w2 = PushedCategories w) \<and>
   (\<exists>w'. exec_block h ss w = Inr w' \<and> PushedCategories w' = PushedCategories w) \<and>
   (\<exists>w'. UnlogPrivateImpl h cfg f v a w = Inr w' \<and> PushedCategories w' = PushedCategories w) \<and>
   PushedCategories (ApplyRuntimeSettingsInternal S w) = PushedCategories w \<and>
   (PushedCategories w = [] \<longrightarrow>
      PushedCategories (FUnlogScopedCategory_ctor B (FUnlogScopedCategory_ctor A w)) = [A, B] \<and>
      FUnlogScopedCategory_dtor (FUnlogScopedCategory_ctor B (FUnlogScopedCategory_ctor A w)) =
        Inr (FUnlogScopedCategory_ctor A w) \<and>
      PushedCategories (FUnlogScopedCategory_ctor A w) = [A] \<and>
      FUnlogScopedCategory_dtor (FUnlogScopedCategory_ctor A w) = Inr w)"
proof -
  have pop: "\<And>T w. FUnlogScopedCategory_dtor (FUnlogScopedCategory_ctor T w) = Inr w"
    by (simp add: FUnlogScopedCategory_ctor_def FUnlogScopedCategory_dtor_def PushCategory_def
        PopCategory_def)
  have push: "\<And>T w. PushedCategories (FUnlogScopedCategory_ctor T w) = PushedCategories w @ [T]"
    by (simp add: FUnlogScopedCategory_ctor_def PushCategory_def)
  obtain w1 where w1: "exec_block h body (FUnlogScopedCategory_ctor T w) = Inr w1"
      "PushedCategories w1 = PushedCategories w @ [T]"
    using exec_balanced(2) [of h body "FUnlogScopedCategory_ctor T w"] push by auto
  obtain w2 where w2: "FUnlogScopedCategory_dtor w1 = Inr w2" "PushedCategories w2 = PushedCategories w"
    using w1(2) by (simp add: FUnlogScopedCategory_dtor_def PopCategory_def)
  have scope: "\<exists>w1 w2. exec_block h body (FUnlogScopedCategory_ctor T w) = Inr w1 \<and>
      PushedCategories w1 = PushedCategories w @ [T] \<and>
      FUnlogScopedCategory_dtor w1 = Inr w2 \<and>
      exec h (CategoryScope T body) w = Inr w2 \<and>
      PushedCategories w2 = PushedCategories w"
    using w1 w2 by simp
  have core: "\<exists>w'. UnlogPrivateImpl h cfg f v a w = Inr w' \<and> PushedCategories w' = PushedCategories w"
    using UnlogPrivateImpl_appends [of h cfg f v a w] by auto
  show ?thesis
    using pop push scope core exec_balanced(2) [of h ss w] ApplyRuntimeSettingsInternal_fields(1) [of S w]
    by simp
qed

theorem FUnlogScopedCategory_balanced_witness:
  "PushedCategories CreateLogger = [] \<and>
   PushedCategories (FUnlogScopedCategory_ctor (UNLOG_CATEGORY ''B'')
     (FUnlogScopedCategory_ctor (UNLOG_CATEGORY ''A'') CreateLogger)) =
     [UNLOG_CATEGORY ''A'', UNLOG_CATEGORY ''B''] \<and>
   FUnlogScopedCategory_dtor (FUnlogScopedCategory_ctor (UNLOG_CATEGORY ''B'')
     (FUnlogScopedCategory_ctor (UNLOG_CATEGORY ''A'') CreateLogger)) =
     Inr (FUnlogScopedCategory_ctor (UNLOG_CATEGORY ''A'') CreateLogger) \<and>
   PushedCategories (FUnlogScopedCategory_ctor (UNLOG_CATEGORY ''A'') CreateLogger) =
     [UNLOG_CATEGORY ''A''] \<and>
   FUnlogScopedCategory_dtor (FUnlogScopedCategory_ctor (UNLOG_CATEGORY ''A'') CreateLogger) =
     Inr CreateLogger"
proof -
  have e: "PushedCategories CreateLogger = []"
    by (simp add: CreateLogger_def)
  show ?thesis
    using e FUnlogScopedCategory_balanced [of "UNLOG_CATEGORY ''A''" CreateLogger plain_host "[]" "[]"
        "TStaticConfiguration (TFormatOptions False) (TDeriveCategory LogGeneral) UELog" "''m''" Log "[]"
        UnlogDefaultRuntimeSettings "UNLOG_CATEGORY ''B''" "UNLOG_CATEGORY ''A''"]
    by simp
qed

section \<open>Installed settings\<close>

text \<open>No target of a flavor calls \<open>ProcessLog\<close> of a runtime target.\<close>

lemma sink_calls_no_ProcessLog: "filter is_ProcessLog (sink_calls t c v m) = []"
proof -
  have "e \<in> set (sink_calls t c v m) \<Longrightarrow> \<not> is_ProcessLog e" for e
    by (induction t arbitrary: e) (auto simp: sink_calls_leaf sink_calls_TMultiTarget split: if_splits)
  then show ?thesis by (simp add: filter_empty_conv)
qed

lemma Unlogger_PickCategory_settings:
  "Unlogger_PickCategory P (ApplyRuntimeSettingsInternal S w) = Unlogger_PickCategory P w"
  by (simp add: Unlogger_PickCategory_def ApplyRuntimeSettingsInternal_fields)

text \<open>
  C6, amended. Installing settings makes the logger's pointer refer to the static of
  the installed class, which is constructed by \<open>MakeSettings\<close> if it did not exist,
  and every settings object that existed before is still there, unchanged. A log
  call does not read the installed settings: it leaves the same events whether
  settings \<open>S\<close> were installed before it or not, and none of them is a call of a
  runtime target. With an empty stack, a call through a flavor that derives its
  category resolves to the default category of the flavor and is dispatched to the
  target of the flavor.
\<close>

theorem settings_installed_not_consulted:
  "Settings (ApplyRuntimeSettingsInternal S w) = S \<and>
   active_settings (ApplyRuntimeSettingsInternal S w) =
     Some (case SettingsStatics w S of Some s \<Rightarrow> s | None \<Rightarrow> MakeSettings S) \<and>
   (SettingsStatics w S' = Some s' \<longrightarrow>
      SettingsStatics (ApplyRuntimeSettingsInternal S w) S' = Some s') \<and>
   (\<exists>evs. UnlogPrivateImpl h cfg f v a w = Inr (w\<lparr>trace := trace w @ evs\<rparr>) \<and>
      UnlogPrivateImpl h cfg f v a (ApplyRuntimeSettingsInternal S w) =
        Inr ((ApplyRuntimeSettingsInternal S w)\<lparr>trace := trace w @ evs\<rparr>) \<and>
      filter is_ProcessLog evs = []) \<and>
   (PushedCategories w = [] \<longrightarrow>
      Unlogger_PickCategory (TDeriveCategory D) (ApplyRuntimeSettingsInternal S w) = Inr (Static D) \<and>
      (\<exists>evs. Unlog_call True h (TUnlog t (TDeriveCategory D)) v p f a (ApplyRuntimeSettingsInternal S w) =
         Inr ((ApplyRuntimeSettingsInternal S w)\<lparr>trace := trace w @ EvFilter (Static D) v # evs\<rparr>) \<and>
         filter is_dispatch evs =
           (if verbosity_value v \<le> verbosity_value (GetVerbosity (Static D)) \<and> v \<noteq> NoLogging
            then sink_calls t (Static D) v (ProcessFormatString h (TFormatOptions p) f a) else [])))"
proof -
  have 1: "Settings (ApplyRuntimeSettingsInternal S w) = S"
    by (simp add: ApplyRuntimeSettingsInternal_fields)
  have 2: "active_settings (ApplyRuntimeSettingsInternal S w) =
     Some (case SettingsStatics w S of Some s \<Rightarrow> s | None \<Rightarrow> MakeSettings S)"
    by (simp add: active_settings_def ApplyRuntimeSettingsInternal_def Settings_Static_def
        split: option.splits)
  have 3: "SettingsStatics w S' = Some s' \<longrightarrow>
      SettingsStatics (ApplyRuntimeSettingsInternal S w) S' = Some s'"
    by (auto simp: ApplyRuntimeSettingsInternal_def Settings_Static_def split: option.splits)
  obtain T where T: "Unlogger_PickCategory (CategoryPicker cfg) w = Inr (Static T)"
    using Unlogger_PickCategory_total by blast
  have 4: "\<exists>evs. UnlogPrivateImpl h cfg f v a w = Inr (w\<lparr>trace := trace w @ evs\<rparr>) \<and>
      UnlogPrivateImpl h cfg f v a (ApplyRuntimeSettingsInternal S w) =
        Inr ((ApplyRuntimeSettingsInternal S w)\<lparr>trace := trace w @ evs\<rparr>) \<and>
      filter is_ProcessLog evs = []"
  proof -
    let ?evs = "EvFilter (Static T) v #
        (if verbosity_value v \<le> verbosity_value (GetVerbosity (Static T)) \<and> v \<noteq> NoLogging
         then EvFormat (IsPrintfFormat (FormatOptions cfg)) f a #
              sink_calls (TargetOptions cfg) (Static T) v (ProcessFormatString h (FormatOptions cfg) f a)
         else [])"
    have T': "Unlogger_PickCategory (CategoryPicker cfg) (ApplyRuntimeSettingsInternal S w) = Inr (Static T)"
      using T by (simp add: Unlogger_PickCategory_settings)
    have a: "UnlogPrivateImpl h cfg f v a w = Inr (w\<lparr>trace := trace w @ ?evs\<rparr>)"
      by (rule UnlogPrivateImpl_events [OF T])
    have b: "UnlogPrivateImpl h cfg f v a (ApplyRuntimeSettingsInternal S w) =
        Inr ((ApplyRuntimeSettingsInternal S w)\<lparr>trace := trace w @ ?evs\<rparr>)"
      using UnlogPrivateImpl_events [OF T', of h f v a]
      by (simp add: ApplyRuntimeSettingsInternal_fields)
    have c: "filter is_ProcessLog ?evs = []"
      by (simp add: sink_calls_no_ProcessLog)
    from a b c show ?thesis by blast
  qed
  have 5: "Unlogger_PickCategory (TDeriveCategory D) (ApplyRuntimeSettingsInternal S w) = Inr (Static D) \<and>
      (\<exists>evs. Unlog_call True h (TUnlog t (TDeriveCategory D)) v p f a (ApplyRuntimeSettingsInternal S w) =
         Inr ((ApplyRuntimeSettingsInternal S w)\<lparr>trace := trace w @ EvFilter (Static D) v # evs\<rparr>) \<and>
         filter is_dispatch evs =
           (if verbosity_value v \<le> verbosity_value (GetVerbosity (Static D)) \<and> v \<noteq> NoLogging
            then sink_calls t (Static D) v (ProcessFormatString h (TFormatOptions p) f a) else []))"
    if e: "PushedCategories w = []"
  proof -
    have d: "Unlogger_PickCategory (TDeriveCategory D) (ApplyRuntimeSettingsInternal S w) = Inr (Static D)"
      using e by (simp add: Unlogger_PickCategory_def ApplyRuntimeSettingsInternal_fields)
    let ?evs = "(if verbosity_value v \<le> verbosity_value (GetVerbosity (Static D)) \<and> v \<noteq> NoLogging
         then EvFormat p f a # sink_calls t (Static D) v (ProcessFormatString h (TFormatOptions p) f a)
         else [])"
    have a: "Unlog_call True h (TUnlog t (TDeriveCategory D)) v p f a (ApplyRuntimeSettingsInternal S w) =
         Inr ((ApplyRuntimeSettingsInternal S w)\<lparr>trace := trace w @ EvFilter (Static D) v # ?evs\<rparr>)"
      using d
      by (simp add: Unlog_call_def FunctionName_def UnlogPrivateImpl_events [where c = "Static D"]
          ApplyRuntimeSettingsInternal_fields)
    have b: "filter is_dispatch ?evs =
           (if verbosity_value v \<le> verbosity_value (GetVerbosity (Static D)) \<and> v \<noteq> NoLogging
            then sink_calls t (Static D) v (ProcessFormatString h (TFormatOptions p) f a) else [])"
      by (simp add: filter_sink_calls)
    from d a b show ?thesis by blast
  qed
  from 1 2 3 4 5 show ?thesis by blast
qed


theorem settings_installed_not_consulted_witness:
  "SettingsStatics CreateLogger UnlogDefaultRuntimeSettings = Some (MakeSettings UnlogDefaultRuntimeSettings) \<and>
   SettingsStatics (ApplyRuntimeSettingsInternal MySettings CreateLogger) UnlogDefaultRuntimeSettings =
     Some (MakeSettings UnlogDefaultRuntimeSettings) \<and>
   Settings (ApplyRuntimeSettingsInternal MySettings CreateLogger) = MySettings \<and>
   PushedCategories CreateLogger = [] \<and>
   Unlogger_PickCategory (TDeriveCategory LogGeneral) (ApplyRuntimeSettingsInternal MySettings CreateLogger) =
     Inr (Static LogGeneral)"
proof -
  have a: "SettingsStatics CreateLogger UnlogDefaultRuntimeSettings = Some (MakeSettings UnlogDefaultRuntimeSettings)"
    "PushedCategories CreateLogger = []"
    by (simp_all add: CreateLogger_def)
  show ?thesis
    using a settings_installed_not_consulted [of MySettings CreateLogger UnlogDefaultRuntimeSettings
        "MakeSettings UnlogDefaultRuntimeSettings" plain_host
        "TStaticConfiguration (TFormatOptions False) (TDeriveCategory LogGeneral) UELog" "''A''" Log "[]"
        LogGeneral UELog False]
    by simp
qed

text \<open>
  C6, as stated, fails: after \<open>MySettings\<close> is installed, the active settings have
  the default category \<open>MyCategory\<close> and the target \<open>MyTarget\<close>; a call through the
  default flavor with no category pushed resolves to \<open>LogGeneral\<close> and goes to the
  host's log sink only.
\<close>

theorem settings_default_category_counterexample:
  "map_option GetDefaultCategory (active_settings (ApplyRuntimeSettings MySettings CreateLogger)) =
     Some \<lparr>CategoryName = ''MyCategory'', Verbosity = Log\<rparr> \<and>
   map_option GetTargets (active_settings (ApplyRuntimeSettings MySettings CreateLogger)) =
     Some [''MyTarget''] \<and>
   PushedCategories (ApplyRuntimeSettings MySettings CreateLogger) = [] \<and>
   Unlog_call True plain_host Unlog_default Log False ''A'' [] (ApplyRuntimeSettings MySettings CreateLogger) =
     Inr ((ApplyRuntimeSettings MySettings CreateLogger)\<lparr>trace :=
       [EvFilter \<lparr>CategoryName = ''LogGeneral'', Verbosity = Log\<rparr> Log,
        EvFormat False ''A'' [],
        EvLogf ''LogGeneral'' Log ''A'']\<rparr>)"
proof -
  let ?w = "ApplyRuntimeSettings MySettings CreateLogger"
  have f: "PushedCategories ?w = []" "trace ?w = []"
    by (simp_all add: ApplyRuntimeSettings_def ApplyRuntimeSettingsInternal_fields CreateLogger_def)
  have s: "active_settings ?w = Some (MakeSettings MySettings)"
    by (simp add: active_settings_def ApplyRuntimeSettings_def ApplyRuntimeSettingsInternal_def
        Settings_Static_def CreateLogger_def MySettings_def)
  have m: "GetDefaultCategory (MakeSettings MySettings) = \<lparr>CategoryName = ''MyCategory'', Verbosity = Log\<rparr>"
    "GetTargets (MakeSettings MySettings) = [''MyTarget'']"
    by (simp_all add: GetDefaultCategory_def GetTargets_def MakeSettings_def MySettings_def Static_def)
  have p: "Unlogger_PickCategory (TDeriveCategory LogGeneral) ?w = Inr (Static LogGeneral)"
    by (simp add: Unlogger_PickCategory_def f)
  have r: "ProcessFormatString plain_host (TFormatOptions False) ''A'' [] = ''A''"
    by (simp add: ProcessFormatString_def plain_host_def numbered_host_def ResolveString_def
        Format_spec_def)
  have g: "Static LogGeneral = \<lparr>CategoryName = ''LogGeneral'', Verbosity = Log\<rparr>"
    by (simp add: Static_def LogGeneral_def)
  have c: "Unlog_call True plain_host Unlog_default Log False ''A'' [] ?w =
     Inr (?w\<lparr>trace :=
       [EvFilter \<lparr>CategoryName = ''LogGeneral'', Verbosity = Log\<rparr> Log,
        EvFormat False ''A'' [],
        EvLogf ''LogGeneral'' Log ''A'']\<rparr>)"
    using p
    by (simp add: Unlog_call_def Unlog_default_def Target_Default_def FunctionName_def
        UnlogPrivateImpl_events [where c = "Static LogGeneral"] f r sink_calls_leaf)
      (simp add: g GetVerbosity_def GetName_def)
  from s m f c show ?thesis by simp
qed

section \<open>Context flags are reference counts\<close>

lemma open_true_snoc:
  "open_true n (gs @ [g]) = open_true n gs + (if ActualType g = n \<and> Value g then 1 else 0)"
  by (simp add: open_true_def)

lemma open_true_remove:
  assumes "i < length gs"
  shows "open_true n (take i gs @ drop (Suc i) gs) +
           (if ActualType (gs ! i) = n \<and> Value (gs ! i) then 1 else 0) = open_true n gs"
proof -
  have "gs = take i gs @ gs ! i # drop (Suc i) gs"
    using assms by (rule id_take_nth_drop)
  then have "open_true n gs = open_true n (take i gs @ gs ! i # drop (Suc i) gs)"
    by simp
  then show ?thesis
    by (simp add: open_true_def)
qed

lemma open_true_le: "open_true n gs \<le> length gs"
  by (simp add: open_true_def)

text \<open>A count below \<open>2 ^ 32\<close> that is not zero is not zero as a \<open>uint32\<close>.\<close>

lemma word32_of_nat_pos:
  assumes "0 < k" "k < 2 ^ 32"
  shows "(0 :: 32 word) < of_nat k"
proof -
  have "\<not> 2 ^ 32 dvd k"
    using assms by (auto dest: dvd_imp_le)
  then have "(of_nat k :: 32 word) \<noteq> 0"
    by (simp add: word_of_nat_eq_0_iff)
  then show ?thesis
    by (simp add: word_gt_0)
qed

lemma Static_Counter_upd:
  "Static_Counter n (w\<lparr>ContextStatics := (ContextStatics w)(m \<mapsto> x)\<rparr>) =
     (if n = m then Counter x else Static_Counter n w)"
  by (simp add: Static_Counter_def Context_Static_def Context_Construct_def split: option.splits)

lemma Context_Static_Counter:
  "Context_Static n w = (x, w1) \<Longrightarrow> Counter x = Static_Counter n w \<and> Static_Counter m w1 = Static_Counter m w"
  by (auto simp: Static_Counter_def Context_Static_def Context_Construct_def
      split: option.splits if_splits)

lemma ctor_Counter:
  "Static_Counter m (snd (UnloggerScopedContext_ctor n b w)) =
     (if m = n \<and> b then Static_Counter m w + 1 else Static_Counter m w)"
proof (cases "Context_Static n w")
  case (Pair x w1)
  then show ?thesis
    using Context_Static_Counter [OF Pair]
    by (simp add: UnloggerScopedContext_ctor_def Static_Counter_upd IncrementCounter_def)
qed

lemma dtor_Counter:
  assumes "Value g \<longrightarrow> 0 < Static_Counter (ActualType g) w"
  shows "\<exists>w'. UnloggerScopedContext_dtor g w = Inr w' \<and>
     (\<forall>m. Static_Counter m w' =
        (if m = ActualType g \<and> Value g then Static_Counter m w - 1 else Static_Counter m w))"
proof (cases "Context_Static (ActualType g) w")
  case (Pair x w1)
  show ?thesis
    using assms Context_Static_Counter [OF Pair]
    by (simp add: UnloggerScopedContext_dtor_def Pair DecrementCounter_def Static_Counter_upd)
qed

lemma dtor_underflow:
  assumes "Value g" "Static_Counter (ActualType g) w = 0"
  shows "UnloggerScopedContext_dtor g w = Inl (CheckFailed ''Counter > 0u'')"
proof (cases "Context_Static (ActualType g) w")
  case (Pair x w1)
  show ?thesis
    using assms Context_Static_Counter [OF Pair]
    by (simp add: UnloggerScopedContext_dtor_def Pair DecrementCounter_def)
qed

text \<open>
  One step of a script keeps the counters in agreement with the live guards, and the
  check of \<open>DecrementCounter\<close> does not fail, as long as fewer than \<open>2 ^ 32\<close> guards
  are alive.
\<close>

lemma guard_step_agree:
  assumes "counts_agree w gs" "length gs < 2 ^ 32"
  shows "\<exists>w' gs'. guard_step x (w, gs) = Inr (w', gs') \<and> counts_agree w' gs' \<and>
           length gs' \<le> Suc (length gs)"
proof (cases x)
  case (Open n b)
  obtain g w1 where c: "UnloggerScopedContext_ctor n b w = (g, w1)"
    by (cases "UnloggerScopedContext_ctor n b w")
  then have g: "g = \<lparr>ActualType = n, Value = b\<rparr>"
    by (simp add: UnloggerScopedContext_ctor_def)
  have "Static_Counter m w1 = of_nat (open_true m (gs @ [g]))" for m
    using ctor_Counter [of m n b w] assms(1) c
    by (simp add: counts_agree_def open_true_snoc g)
  then have "counts_agree w1 (gs @ [g])"
    by (simp add: counts_agree_def)
  with Open c show ?thesis by simp
next
  case (Close i)
  show ?thesis
  proof (cases "i < length gs")
    case False
    with Close assms show ?thesis by simp
  next
    case True
    let ?g = "gs ! i"
    let ?gs = "take i gs @ drop (Suc i) gs"
    have rm: "open_true m ?gs + (if ActualType ?g = m \<and> Value ?g then 1 else 0) = open_true m gs" for m
      using True by (rule open_true_remove)
    have pos: "0 < Static_Counter (ActualType ?g) w" if "Value ?g"
    proof -
      have "0 < open_true (ActualType ?g) gs"
        using rm [of "ActualType ?g"] that by simp
      moreover have "open_true (ActualType ?g) gs < 2 ^ 32"
        using open_true_le [of "ActualType ?g" gs] assms(2) by simp
      ultimately have "(0 :: 32 word) < of_nat (open_true (ActualType ?g) gs)"
        by (rule word32_of_nat_pos)
      then show ?thesis
        using assms(1) by (simp add: counts_agree_def)
    qed
    then obtain w' where w': "UnloggerScopedContext_dtor ?g w = Inr w'"
      "\<And>m. Static_Counter m w' =
        (if m = ActualType ?g \<and> Value ?g then Static_Counter m w - 1 else Static_Counter m w)"
      using dtor_Counter [of ?g w] by blast
    have "Static_Counter m w' = of_nat (open_true m ?gs)" for m
    proof (cases "m = ActualType ?g \<and> Value ?g")
      case True
      then have "open_true m gs = Suc (open_true m ?gs)"
        using rm [of m] by simp
      then show ?thesis
        using w'(2) [of m] True assms(1) by (simp add: counts_agree_def)
    next
      case False
      then have "open_true m gs = open_true m ?gs"
        using rm [of m] by auto
      then show ?thesis
        using w'(2) [of m] False assms(1) by (auto simp: counts_agree_def)
    qed
    then have "counts_agree w' ?gs"
      by (simp add: counts_agree_def)
    with Close True w'(1) show ?thesis by simp
  qed
qed

lemma guard_run_agree:
  assumes "counts_agree w gs" "length gs + length ops < 2 ^ 32"
  shows "\<exists>w' gs'. guard_run ops (w, gs) = Inr (w', gs') \<and> counts_agree w' gs' \<and>
           length gs' \<le> length gs + length ops"
  using assms
proof (induction ops arbitrary: w gs)
  case Nil
  then show ?case by simp
next
  case (Cons x xs)
  then have "length gs < 2 ^ 32" by simp
  with Cons.prems(1) obtain w1 gs1 where s: "guard_step x (w, gs) = Inr (w1, gs1)"
      "counts_agree w1 gs1" "length gs1 \<le> Suc (length gs)"
    using guard_step_agree by blast
  have "length gs1 + length xs < 2 ^ 32"
    using s(3) Cons.prems(2) by simp
  with Cons.IH [OF s(2)] obtain w' gs' where "guard_run xs (w1, gs1) = Inr (w', gs')"
      "counts_agree w' gs'" "length gs' \<le> length gs1 + length xs"
    by blast
  with s show ?case by auto
qed

lemma Static_IsActive_agree:
  assumes "counts_agree w gs" "length gs < 2 ^ 32"
  shows "fst (Static_IsActive n w) = (0 < open_true n gs)"
proof -
  have c: "Static_Counter n w = of_nat (open_true n gs)"
    using assms(1) by (simp add: counts_agree_def)
  have a: "fst (Static_IsActive n w) = (0 < Static_Counter n w)"
    by (simp add: Static_IsActive_def IsActive_def Static_Counter_def split: prod.splits)
  show ?thesis
  proof (cases "0 < open_true n gs")
    case True
    moreover have "open_true n gs < 2 ^ 32"
      using open_true_le [of n gs] assms(2) by simp
    ultimately have "(0 :: 32 word) < of_nat (open_true n gs)"
      by (rule word32_of_nat_pos)
    with True a c show ?thesis by simp
  next
    case False
    with a c show ?thesis by simp
  qed
qed


text \<open>
  C7. A context is active exactly when its counter is greater than zero.
  \<open>DecrementCounter\<close> on a counter that is zero fails its check, and so does the
  destructor of a guard made with \<open>true\<close> when the counter of its context is zero;
  on a positive counter it subtracts one. The constructor of a guard adds one to the
  counter of its context when it is given \<open>true\<close> and does nothing when it is given
  \<open>false\<close>. For guards opened and closed in any order (fewer than \<open>2 ^ 32\<close> of
  them): no check fails, every counter stays the number of live guards of its context
  made with \<open>true\<close>, and a context is active exactly when at least one such guard is
  alive. So of two overlapping guards the first to close leaves the context active,
  and the second to close makes it inactive.
\<close>

theorem context_flag_refcount:
  "IsActive x = (0 < Counter x) \<and>
   (Counter x = 0 \<longrightarrow> DecrementCounter x = Inl (CheckFailed ''Counter > 0u'')) \<and>
   (0 < Counter x \<longrightarrow> DecrementCounter x = Inr (x\<lparr>Counter := Counter x - 1\<rparr>)) \<and>
   Static_Counter n (snd (UnloggerScopedContext_ctor n True w)) = Static_Counter n w + 1 \<and>
   snd (UnloggerScopedContext_ctor n False w) = w \<and>
   (Value g \<and> Static_Counter (ActualType g) w = 0 \<longrightarrow>
      UnloggerScopedContext_dtor g w = Inl (CheckFailed ''Counter > 0u'')) \<and>
   (counts_agree w gs \<and> length gs + length ops < 2 ^ 32 \<longrightarrow>
      (\<exists>w' gs'. guard_run ops (w, gs) = Inr (w', gs') \<and> counts_agree w' gs' \<and>
         (\<forall>m. fst (Static_IsActive m w') = (0 < open_true m gs'))))"
proof -
  have run: "\<exists>w' gs'. guard_run ops (w, gs) = Inr (w', gs') \<and> counts_agree w' gs' \<and>
         (\<forall>m. fst (Static_IsActive m w') = (0 < open_true m gs'))"
    if a: "counts_agree w gs" and b: "length gs + length ops < 2 ^ 32"
  proof -
    obtain w' gs' where r: "guard_run ops (w, gs) = Inr (w', gs')" "counts_agree w' gs'"
        "length gs' \<le> length gs + length ops"
      using guard_run_agree [OF a b] by blast
    then have "length gs' < 2 ^ 32"
      using b by simp
    then have "\<forall>m. fst (Static_IsActive m w') = (0 < open_true m gs')"
      using Static_IsActive_agree [OF r(2)] by blast
    with r show ?thesis by blast
  qed
  have dec: "Value g \<and> Static_Counter (ActualType g) w = 0 \<longrightarrow>
      UnloggerScopedContext_dtor g w = Inl (CheckFailed ''Counter > 0u'')"
    using dtor_underflow by blast
  show ?thesis
    using run dec ctor_Counter [of n n True w]
    by (simp add: IsActive_def DecrementCounter_def UnloggerScopedContext_ctor_def)
qed

theorem context_flag_refcount_witness:
  "counts_agree CreateLogger [] \<and>
   Counter (Context_Construct ''InEditor'') = 0 \<and>
   DecrementCounter (Context_Construct ''InEditor'') = Inl (CheckFailed ''Counter > 0u'') \<and>
   0 < Counter \<lparr>ContextName = ''InEditor'', Counter = 1\<rparr> \<and>
   DecrementCounter \<lparr>ContextName = ''InEditor'', Counter = 1\<rparr> =
     Inr \<lparr>ContextName = ''InEditor'', Counter = 0\<rparr> \<and>
   Value \<lparr>ActualType = ''InEditor'', Value = True\<rparr> \<and>
   Static_Counter (ActualType \<lparr>ActualType = ''InEditor'', Value = True\<rparr>) CreateLogger = 0 \<and>
   UnloggerScopedContext_dtor \<lparr>ActualType = ''InEditor'', Value = True\<rparr> CreateLogger =
     Inl (CheckFailed ''Counter > 0u'') \<and>
   guard_run [Open ''InEditor'' True, Open ''InEditor'' True, Close 0] (CreateLogger, []) =
     Inr (CreateLogger\<lparr>ContextStatics := [''InEditor'' \<mapsto> \<lparr>ContextName = ''InEditor'', Counter = 1\<rparr>]\<rparr>,
          [\<lparr>ActualType = ''InEditor'', Value = True\<rparr>]) \<and>
   fst (Static_IsActive ''InEditor''
     (CreateLogger\<lparr>ContextStatics := [''InEditor'' \<mapsto> \<lparr>ContextName = ''InEditor'', Counter = 1\<rparr>]\<rparr>)) \<and>
   guard_run [Open ''InEditor'' True, Open ''InEditor'' True, Close 0, Close 0] (CreateLogger, []) =
     Inr (CreateLogger\<lparr>ContextStatics := [''InEditor'' \<mapsto> \<lparr>ContextName = ''InEditor'', Counter = 0\<rparr>]\<rparr>, []) \<and>
   \<not> fst (Static_IsActive ''InEditor''
     (CreateLogger\<lparr>ContextStatics := [''InEditor'' \<mapsto> \<lparr>ContextName = ''InEditor'', Counter = 0\<rparr>]\<rparr>))"
proof -
  let ?g = "\<lparr>ActualType = ''InEditor'', Value = True\<rparr>"
  let ?x1 = "\<lparr>ContextName = ''InEditor'', Counter = 1\<rparr>"
  have a: "counts_agree CreateLogger []"
    by (simp add: counts_agree_def Static_Counter_def Context_Static_def Context_Construct_def
        CreateLogger_def open_true_def)
  have b: "Counter (Context_Construct ''InEditor'') = 0" "0 < Counter ?x1"
    by (simp_all add: Context_Construct_def)
  have d: "Value ?g" "Static_Counter (ActualType ?g) CreateLogger = 0"
    by (simp_all add: Static_Counter_def Context_Static_def Context_Construct_def CreateLogger_def)
  have c: "length ([] :: UnloggerScopedContext list) +
      length [Open ''InEditor'' True, Open ''InEditor'' True, Close 0] < 2 ^ 32"
    by simp
  have r1: "guard_run [Open ''InEditor'' True, Open ''InEditor'' True, Close 0] (CreateLogger, []) =
     Inr (CreateLogger\<lparr>ContextStatics := [''InEditor'' \<mapsto> ?x1]\<rparr>, [?g])"
    by (simp add: UnloggerScopedContext_ctor_def UnloggerScopedContext_dtor_def Context_Static_def
        Context_Construct_def IncrementCounter_def DecrementCounter_def CreateLogger_def)
  have r2: "guard_run [Open ''InEditor'' True, Open ''InEditor'' True, Close 0, Close 0] (CreateLogger, []) =
     Inr (CreateLogger\<lparr>ContextStatics := [''InEditor'' \<mapsto> \<lparr>ContextName = ''InEditor'', Counter = 0\<rparr>]\<rparr>, [])"
    by (simp add: UnloggerScopedContext_ctor_def UnloggerScopedContext_dtor_def Context_Static_def
        Context_Construct_def IncrementCounter_def DecrementCounter_def CreateLogger_def)
  show ?thesis
    using a b c d r1 r2
      context_flag_refcount [of "Context_Construct ''InEditor''" "''InEditor''" CreateLogger ?g "[]"
        "[Open ''InEditor'' True, Open ''InEditor'' True, Close 0]"]
      context_flag_refcount [of ?x1 "''InEditor''" CreateLogger ?g "[]"
        "[Open ''InEditor'' True, Open ''InEditor'' True, Close 0, Close 0]"]
    by (simp add: open_true_def)
qed

section \<open>Numbered placeholders\<close>

lemma numbered_literal:
  "CHR ''{'' \<notin> set s \<Longrightarrow> numbered args None (s @ rest) = s @ numbered args None rest"
  by (induction s) auto

lemma numbered_digits:
  "list_all is_digit ds' \<Longrightarrow>
     numbered args (Some ds) (ds' @ rest) = numbered args (Some (ds @ ds')) rest"
  by (induction ds' arbitrary: ds) simp_all

lemma numbered_close:
  "ds \<noteq> [] \<Longrightarrow>
     numbered args (Some ds) (CHR ''}'' # rest) = substitute args ds @ numbered args None rest"
  by (simp add: is_digit_def)

lemma digit_char:
  assumes "d < 10"
  shows "is_digit (''0123456789'' ! d) \<and> digit_value (''0123456789'' ! d) = d"
proof -
  from assms have "d = 0 \<or> d = 1 \<or> d = 2 \<or> d = 3 \<or> d = 4 \<or> d = 5 \<or> d = 6 \<or> d = 7 \<or> d = 8 \<or> d = 9"
    by arith
  then show ?thesis
    by (elim disjE) (simp_all add: is_digit_def digit_value_def)
qed

lemma index_of_snoc: "index_of (ds @ [c]) = 10 * index_of ds + digit_value c"
  by (simp add: index_of_def)

text \<open>Reading back the decimal digits of an index gives the index.\<close>

lemma decimal_digits: "decimal n \<noteq> [] \<and> list_all is_digit (decimal n) \<and> index_of (decimal n) = n"
proof (induction n rule: decimal.induct)
  case (1 n)
  show ?case
  proof (cases "n < 10")
    case True
    then show ?thesis
      using digit_char [of n] by (subst (1 2 3) decimal.simps) (simp add: index_of_def)
  next
    case False
    have m: "n mod 10 < 10" by simp
    have d: "decimal n = decimal (n div 10) @ [''0123456789'' ! (n mod 10)]"
      using False by (subst decimal.simps) simp
    show ?thesis
      using 1 [OF False] digit_char [OF m]
      by (simp only: d index_of_snoc) simp
  qed
qed

lemma numbered_placeholder:
  assumes "i < length args"
  shows "numbered args None (piece_text (Ref i) @ rest) = arg_text (args ! i) @ numbered args None rest"
proof -
  have "numbered args None (piece_text (Ref i) @ rest) =
      numbered args (Some []) (decimal i @ CHR ''}'' # rest)"
    by simp
  also have "\<dots> = numbered args (Some (decimal i)) (CHR ''}'' # rest)"
    using decimal_digits [of i] by (simp add: numbered_digits)
  also have "\<dots> = substitute args (decimal i) @ numbered args None rest"
    by (rule numbered_close) (simp add: decimal_digits)
  also have "substitute args (decimal i) = arg_text (args ! i)"
    using decimal_digits [of i] assms by (simp add: substitute_def)
  finally show ?thesis .
qed

lemma numbered_pieces:
  "list_all (piece_ok args) ps \<Longrightarrow>
     numbered args None (concat (map piece_text ps) @ rest) =
     concat (map (piece_value args) ps) @ numbered args None rest"
proof (induction ps)
  case Nil
  show ?case by simp
next
  case (Cons p ps)
  then have ih: "numbered args None (concat (map piece_text ps) @ rest) =
     concat (map (piece_value args) ps) @ numbered args None rest"
    by simp
  show ?case
  proof (cases p)
    case (Lit s)
    with Cons.prems have "CHR ''{'' \<notin> set s" by simp
    then show ?thesis
      using ih Lit by (simp add: numbered_literal)
  next
    case (Ref i)
    with Cons.prems have "i < length args" by simp
    then show ?thesis
      using ih Ref numbered_placeholder [of i args "concat (map piece_text ps) @ rest"]
      by simp
  qed
qed

text \<open>
  C9. With the numbered renderer of the spec, \<open>ProcessFormatString\<close> without the
  printf option renders a template made of literal text (free of opening braces) and
  placeholders whose indices have arguments as the same sequence with each
  placeholder replaced by the text of the argument at its index, however often an
  index occurs and whether or not every argument is referred to. The template
  \<open>{0}-{1}-{0}\<close> with the arguments \<open>x\<close> and \<open>7\<close> renders as \<open>x-7-x\<close>.
\<close>

theorem numbered_format_positional:
  "(list_all (piece_ok args) ps \<longrightarrow>
      ProcessFormatString (numbered_host pf) (TFormatOptions False) (concat (map piece_text ps)) args =
      concat (map (piece_value args) ps)) \<and>
   ProcessFormatString (numbered_host pf) (TFormatOptions False) ''{0}-{1}-{0}''
      [ArgString ''x'', ArgInt 7] = ''x-7-x''"
proof -
  have a: "ProcessFormatString (numbered_host pf) (TFormatOptions False) (concat (map piece_text ps)) args =
      concat (map (piece_value args) ps)" if "list_all (piece_ok args) ps"
    using numbered_pieces [OF that, of "[]"]
    by (simp add: ProcessFormatString_def numbered_host_def ResolveString_def Format_spec_def)
  have b: "ProcessFormatString (numbered_host pf) (TFormatOptions False) ''{0}-{1}-{0}''
      [ArgString ''x'', ArgInt 7] = ''x-7-x''"
    by (simp add: ProcessFormatString_def numbered_host_def ResolveString_def Format_spec_def
        is_digit_def substitute_def index_of_def digit_value_def)
  from a b show ?thesis by blast
qed

theorem numbered_format_positional_witness:
  "list_all (piece_ok [ArgString ''x'', ArgInt 7]) [Ref 0, Lit ''-'', Ref 1, Lit ''-'', Ref 0] \<and>
   concat (map piece_text [Ref 0, Lit ''-'', Ref 1, Lit ''-'', Ref 0]) = ''{0}-{1}-{0}'' \<and>
   concat (map (piece_value [ArgString ''x'', ArgInt 7]) [Ref 0, Lit ''-'', Ref 1, Lit ''-'', Ref 0]) = ''x-7-x'' \<and>
   ProcessFormatString plain_host (TFormatOptions False) ''{0}-{1}-{0}''
      [ArgString ''x'', ArgInt 7] = ''x-7-x''"
proof -
  have a: "list_all (piece_ok [ArgString ''x'', ArgInt 7]) [Ref 0, Lit ''-'', Ref 1, Lit ''-'', Ref 0]"
    by simp
  have b: "concat (map piece_text [Ref 0, Lit ''-'', Ref 1, Lit ''-'', Ref 0]) = ''{0}-{1}-{0}''"
    by simp
  have c: "concat (map (piece_value [ArgString ''x'', ArgInt 7]) [Ref 0, Lit ''-'', Ref 1, Lit ''-'', Ref 0]) = ''x-7-x''"
    by simp
  show ?thesis
    using a b c numbered_format_positional [of "[ArgString ''x'', ArgInt 7]"
        "[Ref 0, Lit ''-'', Ref 1, Lit ''-'', Ref 0]" "\<lambda>Format Args. Format"]
    by (simp add: plain_host_def)
qed

end
